theory Spec2Isabelle
  imports Complex_Main "HOL-Library.Sublist" "HOL-Library.Char_ord" "HOL-Library.List_Lexorder"
    "HOL-Library.Word"
begin

unbundle bit_operations_syntax

section \<open>The Go library functions the client calls\<close>

text \<open>
  A Go \<open>string\<close> is a sequence of bytes, modelled by \<open>string\<close> (a list of 8-bit
  characters). Go's \<open>int\<close> is the 64-bit signed integer of the usual targets, modelled by
  \<open>int\<close> with the wrap-around written out where the code does arithmetic.

  A \<open>float64\<close> is a finite number, an infinity or a NaN. A finite one is modelled by the
  real number it denotes.
\<close>

datatype float64 = Finite real | PosInf | NegInf | NaN

subsection \<open>Package strings\<close>

text \<open>
  \<open>strings.Split(s, sep)\<close> for a separator of one byte, which is what both call sites
  pass (\<open>"."\<close> and \<open>"="\<close>): the pieces between the separators, so one piece more than
  there are separators, and \<open>[""]\<close> for the empty string.
\<close>

fun Split :: "string \<Rightarrow> char \<Rightarrow> string list" where
  "Split [] sep = [[]]"
| "Split (c # s) sep =
     (let r = Split s sep in if c = sep then [] # r else (c # hd r) # tl r)"

text \<open>\<open>strings.Index(s, substr)\<close>: the index of the first instance, \<open>None\<close> for Go's -1.\<close>

fun Index :: "string \<Rightarrow> string \<Rightarrow> nat option" where
  "Index [] substr = (if substr = [] then Some 0 else None)"
| "Index (c # s) substr =
     (if prefix substr (c # s) then Some 0 else map_option Suc (Index s substr))"

text \<open>
  \<open>strings.TrimSpace\<close> removes leading and trailing white space as Unicode defines it
  (\<open>unicode.IsSpace\<close>). The white-space runes are listed by their UTF-8 encodings: the six
  ASCII ones, U+0085, U+00A0, U+1680, U+2000 to U+200A, U+2028, U+2029, U+202F, U+205F and
  U+3000.
\<close>

definition space_runes :: "string list" where
  "space_runes =
     [[CHR 0x09], [CHR 0x0A], [CHR 0x0B], [CHR 0x0C], [CHR 0x0D], [CHR 0x20],
      [CHR 0xC2, CHR 0x85], [CHR 0xC2, CHR 0xA0], [CHR 0xE1, CHR 0x9A, CHR 0x80],
      [CHR 0xE2, CHR 0x80, CHR 0x80], [CHR 0xE2, CHR 0x80, CHR 0x81], [CHR 0xE2, CHR 0x80, CHR 0x82],
      [CHR 0xE2, CHR 0x80, CHR 0x83], [CHR 0xE2, CHR 0x80, CHR 0x84], [CHR 0xE2, CHR 0x80, CHR 0x85],
      [CHR 0xE2, CHR 0x80, CHR 0x86], [CHR 0xE2, CHR 0x80, CHR 0x87], [CHR 0xE2, CHR 0x80, CHR 0x88],
      [CHR 0xE2, CHR 0x80, CHR 0x89], [CHR 0xE2, CHR 0x80, CHR 0x8A], [CHR 0xE2, CHR 0x80, CHR 0xA8],
      [CHR 0xE2, CHR 0x80, CHR 0xA9], [CHR 0xE2, CHR 0x80, CHR 0xAF], [CHR 0xE2, CHR 0x81, CHR 0x9F],
      [CHR 0xE3, CHR 0x80, CHR 0x80]]"

definition leading_space :: "string \<Rightarrow> nat" where
  "leading_space s =
     (case find (\<lambda>r. prefix r s) space_runes of Some r \<Rightarrow> length r | None \<Rightarrow> 0)"

definition trailing_space :: "string \<Rightarrow> nat" where
  "trailing_space s =
     (case find (\<lambda>r. prefix (rev r) (rev s)) space_runes of Some r \<Rightarrow> length r | None \<Rightarrow> 0)"

function TrimLeft_space :: "string \<Rightarrow> string" where
  "TrimLeft_space s =
     (if leading_space s = 0 \<or> s = [] then s else TrimLeft_space (drop (leading_space s) s))"
  by pat_completeness auto
termination
  by (relation "measure length") auto

function TrimRight_space :: "string \<Rightarrow> string" where
  "TrimRight_space s =
     (if trailing_space s = 0 \<or> s = [] then s
      else TrimRight_space (take (length s - trailing_space s) s))"
  by pat_completeness auto
termination
  by (relation "measure length") auto

declare TrimLeft_space.simps [simp del] TrimRight_space.simps [simp del]

definition TrimSpace :: "string \<Rightarrow> string" where
  "TrimSpace s = TrimRight_space (TrimLeft_space s)"

subsection \<open>Package strconv\<close>

text \<open>
  \<open>strconv.Atoi(s)\<close> is \<open>ParseInt(s, 10, 0)\<close> converted to \<open>int\<close>. It returns a value
  and an error: the value is 0 with a syntax error, and the bound of the range that was
  overstepped with a range error. \<open>ParseUint\<close> reads the digits; its loop returns at the
  first character that is not a digit, or as soon as the accumulated value leaves the
  unsigned 64-bit range.
\<close>

datatype num_error = ErrSyntax | ErrRange

definition is_digit :: "char \<Rightarrow> bool" where
  "is_digit c = (CHR ''0'' \<le> c \<and> c \<le> CHR ''9'')"

definition digit_val :: "char \<Rightarrow> nat" where
  "digit_val c = of_char c - of_char CHR ''0''"

definition maxUint64 :: nat where
  "maxUint64 = 18446744073709551615"

fun ParseUint_loop :: "nat \<Rightarrow> string \<Rightarrow> nat \<times> num_error option" where
  "ParseUint_loop n [] = (n, None)"
| "ParseUint_loop n (c # cs) =
     (if \<not> is_digit c then (0, Some ErrSyntax)
      else if n \<ge> maxUint64 div 10 + 1 then (maxUint64, Some ErrRange)
      else if n * 10 + digit_val c > maxUint64 then (maxUint64, Some ErrRange)
      else ParseUint_loop (n * 10 + digit_val c) cs)"

definition ParseUint :: "string \<Rightarrow> nat \<times> num_error option" where
  "ParseUint s = (if s = [] then (0, Some ErrSyntax) else ParseUint_loop 0 s)"

definition ParseInt :: "string \<Rightarrow> int \<times> num_error option" where
  "ParseInt s0 =
     (if s0 = [] then (0, Some ErrSyntax)
      else
        let neg = (hd s0 = CHR ''-'');
            s = (if hd s0 = CHR ''+'' \<or> hd s0 = CHR ''-'' then tl s0 else s0);
            (un, err) = ParseUint s
        in if err = Some ErrSyntax then (0, Some ErrSyntax)
           else if \<not> neg \<and> un \<ge> 2 ^ 63 then (2 ^ 63 - 1, Some ErrRange)
           else if neg \<and> un > 2 ^ 63 then (- (2 ^ 63), Some ErrRange)
           else (if neg then - int un else int un, None))"

definition Atoi :: "string \<Rightarrow> int \<times> num_error option" where
  "Atoi s = ParseInt s"

text \<open>
  \<open>strconv.Itoa\<close>: the decimal digits, most significant first, after a minus sign for a
  negative number. \<open>digit_char\<close> indexes the digit table, as Go does, and is only applied
  to numbers below ten.
\<close>

definition digit_char :: "nat \<Rightarrow> char" where
  "digit_char d = ''0123456789'' ! d"

fun digits10 :: "nat \<Rightarrow> string" where
  "digits10 n = (if n < 10 then [digit_char n] else digits10 (n div 10) @ [digit_char (n mod 10)])"

declare digits10.simps [simp del]

definition Itoa :: "int \<Rightarrow> string" where
  "Itoa i = (if i < 0 then CHR ''-'' # digits10 (nat (- i)) else digits10 (nat i))"

text \<open>
  \<open>strconv.ParseFloat(s, 64)\<close> enters the catalog functions as a parameter
  \<open>parseFloat\<close>: \<open>Some x\<close> when it returns the \<open>float64\<close> \<open>x\<close> with a nil error (an
  infinity and a NaN included, which it reads from their names), \<open>None\<close> when it returns
  an error, be it of syntax or of range.

  \<open>ParseFloat\<close> is that function. \<open>special\<close> reads \<open>inf\<close> and \<open>infinity\<close> after an
  optional sign and \<open>nan\<close> without a sign, in any mix of upper and lower case.
  \<open>readFloat\<close> reads a number: an optional sign; digits with at most one point among
  them and at least one digit, in base 16 after \<open>0x\<close>; an exponent (\<open>e\<close> and a power of
  ten, or after hexadecimal digits \<open>p\<close> and a power of two, which these must have) made
  of an optional sign and decimal digits, which are no longer added up once the value
  has reached 10000; underscores where \<open>underscoreOK\<close> admits them, between digits or
  after the base prefix. The whole string must be read. The result is the number of the literal
  rounded to the nearest \<open>float64\<close>, to the even one of two nearest, which
  \<open>round_float64\<close> computes from the position \<open>binade\<close> of the leading bit: 53 bits
  are kept, fewer below \<open>2^-1022\<close>. A number that rounds beyond the largest \<open>float64\<close>
  is a range error. A negative zero is the real number 0.
\<close>

definition decimal_value :: "string \<Rightarrow> nat" where
  "decimal_value ds = foldl (\<lambda>n c. n * 10 + digit_val c) 0 ds"

definition to_lower :: "char \<Rightarrow> char" where
  "to_lower c =
     (case map_of (zip ''ABCDEFGHIJKLMNOPQRSTUVWXYZ'' ''abcdefghijklmnopqrstuvwxyz'') c of
        Some l \<Rightarrow> l
      | None \<Rightarrow> c)"

definition special :: "string \<Rightarrow> float64 option" where
  "special s =
     (let signed = (s \<noteq> [] \<and> (hd s = CHR ''+'' \<or> hd s = CHR ''-''));
          name = map to_lower (if signed then tl s else s)
      in if name = ''inf'' \<or> name = ''infinity''
         then Some (if s \<noteq> [] \<and> hd s = CHR ''-'' then NegInf else PosInf)
         else if \<not> signed \<and> name = ''nan'' then Some NaN
         else None)"

definition is_hex_letter :: "char \<Rightarrow> bool" where
  "is_hex_letter c =
     ((CHR ''a'' \<le> c \<and> c \<le> CHR ''f'') \<or> (CHR ''A'' \<le> c \<and> c \<le> CHR ''F''))"

definition hex_val :: "char \<Rightarrow> nat" where
  "hex_val c =
     (if is_digit c then digit_val c
      else if CHR ''a'' \<le> c then of_char c - of_char CHR ''a'' + 10
      else of_char c - of_char CHR ''A'' + 10)"

definition digits_value :: "nat \<Rightarrow> string \<Rightarrow> nat" where
  "digits_value base ds = foldl (\<lambda>n c. n * base + hex_val c) 0 ds"

text \<open>The digits at the head of a string, underscores passed over, and what follows them.\<close>

fun scan_digits :: "bool \<Rightarrow> string \<Rightarrow> string \<times> string" where
  "scan_digits hex [] = ([], [])"
| "scan_digits hex (c # cs) =
     (if c = CHR ''_'' then scan_digits hex cs
      else if is_digit c \<or> (hex \<and> is_hex_letter c)
        then (case scan_digits hex cs of (ds, r) \<Rightarrow> (c # ds, r))
        else ([], c # cs))"

fun exponent_value :: "nat \<Rightarrow> string \<Rightarrow> nat" where
  "exponent_value e [] = e"
| "exponent_value e (c # cs) =
     exponent_value
       (if c = CHR ''_'' then e else if e < 10000 then e * 10 + digit_val c else e) cs"

fun underscoreOK_from :: "bool \<Rightarrow> char \<Rightarrow> string \<Rightarrow> bool" where
  "underscoreOK_from hex saw [] = (saw \<noteq> CHR ''_'')"
| "underscoreOK_from hex saw (c # cs) =
     (if is_digit c \<or> (hex \<and> is_hex_letter c) then underscoreOK_from hex CHR ''0'' cs
      else if c = CHR ''_''
        then (if saw \<noteq> CHR ''0'' then False else underscoreOK_from hex CHR ''_'' cs)
      else if saw = CHR ''_'' then False
      else underscoreOK_from hex CHR ''!'' cs)"

definition underscoreOK :: "string \<Rightarrow> bool" where
  "underscoreOK s =
     (let s1 = (if s \<noteq> [] \<and> (hd s = CHR ''-'' \<or> hd s = CHR ''+'') then tl s else s);
          based = (length s1 \<ge> 2 \<and> hd s1 = CHR ''0'' \<and> to_lower (s1 ! 1) \<in> set ''box'');
          hex = (based \<and> to_lower (s1 ! 1) = CHR ''x'')
      in underscoreOK_from hex (if based then CHR ''0'' else CHR ''^'')
           (if based then drop 2 s1 else s1))"

text \<open>
  \<open>readFloat\<close> reads a number at the head of a string, in the steps of the Go function:
  the sign, the base prefix, the digits around the point, the exponent. It gives the
  sign, the base, the digits as a number, the power of the base (of 2 for hexadecimal
  digits) that scales them, and the rest of the string; \<open>None\<close> is its \<open>ok = false\<close>.
\<close>

definition read_sign :: "string \<Rightarrow> bool \<times> string" where
  "read_sign s =
     (if s \<noteq> [] \<and> hd s = CHR ''+'' then (False, tl s)
      else if s \<noteq> [] \<and> hd s = CHR ''-'' then (True, tl s)
      else (False, s))"

definition read_base :: "string \<Rightarrow> bool \<times> string" where
  "read_base s =
     (if length s > 2 \<and> hd s = CHR ''0'' \<and> to_lower (s ! 1) = CHR ''x'' then (True, drop 2 s)
      else (False, s))"

definition read_mantissa :: "bool \<Rightarrow> string \<Rightarrow> string \<times> string \<times> string" where
  "read_mantissa hex s =
     (case scan_digits hex s of
        (ip, r) \<Rightarrow>
          if r \<noteq> [] \<and> hd r = CHR ''.''
          then (case scan_digits hex (tl r) of (fp, r') \<Rightarrow> (ip, fp, r'))
          else (ip, [], r))"

definition read_exponent :: "bool \<Rightarrow> string \<Rightarrow> (int \<times> string) option" where
  "read_exponent hex r =
     (if r \<noteq> [] \<and> to_lower (hd r) = (if hex then CHR ''p'' else CHR ''e'') then
        (case read_sign (tl r) of
           (eneg, ds) \<Rightarrow>
             if ds = [] \<or> \<not> is_digit (hd ds) then None
             else
               Some ((if eneg then - 1 else 1) *
                       int (exponent_value 0 (takeWhile (\<lambda>c. is_digit c \<or> c = CHR ''_'') ds)),
                     dropWhile (\<lambda>c. is_digit c \<or> c = CHR ''_'') ds))
      else if hex then None
      else Some (0, r))"

definition readFloat :: "string \<Rightarrow> (bool \<times> bool \<times> nat \<times> int \<times> string) option" where
  "readFloat s =
     (case read_sign s of
        (neg, s1) \<Rightarrow>
          (case read_base s1 of
             (hex, s2) \<Rightarrow>
               (case read_mantissa hex s2 of
                  (ip, fp, r) \<Rightarrow>
                    if ip = [] \<and> fp = [] then None
                    else
                      (case read_exponent hex r of
                         None \<Rightarrow> None
                       | Some (e, rest) \<Rightarrow>
                           if \<not> underscoreOK (take (length s - length rest) s) then None
                           else
                             Some (neg, hex, digits_value (if hex then 16 else 10) (ip @ fp),
                                   e - (if hex then 4 else 1) * int (length fp), rest)))))"

fun bit_length :: "nat \<Rightarrow> nat" where
  "bit_length n = (if n = 0 then 0 else Suc (bit_length (n div 2)))"

declare bit_length.simps [simp del]

text \<open>The exponent of the leading bit of a positive number: \<open>2 ^ binade x \<le> x < 2 ^ (binade x + 1)\<close>.\<close>

definition binade :: "real \<Rightarrow> int" where
  "binade x =
     (if 1 \<le> x then int (bit_length (nat \<lfloor>x\<rfloor>)) - 1
      else - int (bit_length (nat (\<lceil>1 / x\<rceil> - 1))))"

definition power_of :: "nat \<Rightarrow> int \<Rightarrow> real" where
  "power_of b e = (if 0 \<le> e then real b ^ nat e else 1 / real b ^ nat (- e))"

definition round_even :: "real \<Rightarrow> int" where
  "round_even q =
     (let n = \<lfloor>q\<rfloor>; r = q - of_int n
      in if r < 1 / 2 then n else if 1 / 2 < r then n + 1 else if even n then n else n + 1)"

definition round_float64 :: "real \<Rightarrow> real" where
  "round_float64 x =
     (if x = 0 then 0
      else let ulp = power_of 2 (max (binade x) (- 1022) - 52)
           in of_int (round_even (x / ulp)) * ulp)"

definition ParseFloat :: "string \<Rightarrow> float64 option" where
  "ParseFloat s =
     (case special s of
        Some x \<Rightarrow> Some x
      | None \<Rightarrow>
          (case readFloat s of
             None \<Rightarrow> None
           | Some (neg, hex, mantissa, ex, rest) \<Rightarrow>
               if rest \<noteq> [] then None
               else
                 let f = round_float64 (real mantissa * power_of (if hex then 2 else 10) ex)
                 in if 2 ^ 1024 \<le> f then None
                    else Some (Finite (if neg then - f else f))))"

subsection \<open>Package net/url\<close>

text \<open>
  \<open>url.Values\<close> maps a key to a list of values; \<open>Set\<close> replaces the list by one value.
  \<open>Encode\<close> writes \<open>key=value\<close> pairs joined by \<open>&\<close>, sorted by key, each side escaped by
  \<open>QueryEscape\<close>: letters, digits and \<open>-_.~\<close> stay, a space becomes \<open>+\<close>, every other
  byte becomes \<open>%XX\<close>.
\<close>

type_synonym Values = "(string \<times> string list) list"

fun Values_Set :: "Values \<Rightarrow> string \<Rightarrow> string \<Rightarrow> Values" where
  "Values_Set [] key val = [(key, [val])]"
| "Values_Set ((k, vs) # m) key val =
     (if k = key then (key, [val]) # m else (k, vs) # Values_Set m key val)"

definition is_alnum :: "char \<Rightarrow> bool" where
  "is_alnum c =
     ((CHR ''a'' \<le> c \<and> c \<le> CHR ''z'') \<or> (CHR ''A'' \<le> c \<and> c \<le> CHR ''Z'') \<or>
      (CHR ''0'' \<le> c \<and> c \<le> CHR ''9''))"

definition shouldEscape :: "char \<Rightarrow> bool" where
  "shouldEscape c = (\<not> is_alnum c \<and> c \<notin> set ''-_.~'')"

definition QueryEscape :: "string \<Rightarrow> string" where
  "QueryEscape s =
     concat (map (\<lambda>c.
       if c = CHR '' '' then ''+''
       else if shouldEscape c
         then [CHR ''%'', ''0123456789ABCDEF'' ! (of_char c div 16),
               ''0123456789ABCDEF'' ! (of_char c mod 16)]
         else [c]) s)"

fun join_amp :: "string list \<Rightarrow> string" where
  "join_amp [] = []"
| "join_amp [x] = x"
| "join_amp (x # y # ys) = x @ ''&'' @ join_amp (y # ys)"

definition Encode :: "Values \<Rightarrow> string" where
  "Encode v =
     join_amp (concat (map (\<lambda>k.
        map (\<lambda>x. QueryEscape k @ ''='' @ QueryEscape x)
          (case map_of v k of Some vs \<Rightarrow> vs | None \<Rightarrow> []))
        (sort (remdups (map fst v)))))"

subsection \<open>Package crypto/md5\<close>

text \<open>
  MD5 as RFC 1321 defines it: the message is padded to a multiple of 64 bytes (a byte
  0x80, zeros, the bit length as 8 little-endian bytes), and each block of sixteen
  little-endian 32-bit words drives 64 steps on the state \<open>(a, b, c, d)\<close>.
  \<open>hex_lower\<close> is \<open>fmt.Sprintf("%x", ...)\<close> on a byte slice.
\<close>

type_synonym u32 = "32 word"

type_synonym byte = "8 word"

definition md5_shifts :: "nat list" where
  "md5_shifts =
     [7, 12, 17, 22, 7, 12, 17, 22, 7, 12, 17, 22, 7, 12, 17, 22,
      5, 9, 14, 20, 5, 9, 14, 20, 5, 9, 14, 20, 5, 9, 14, 20,
      4, 11, 16, 23, 4, 11, 16, 23, 4, 11, 16, 23, 4, 11, 16, 23,
      6, 10, 15, 21, 6, 10, 15, 21, 6, 10, 15, 21, 6, 10, 15, 21]"

definition md5_table :: "u32 list" where
  "md5_table =
     [0xd76aa478, 0xe8c7b756, 0x242070db, 0xc1bdceee, 0xf57c0faf, 0x4787c62a, 0xa8304613, 0xfd469501,
      0x698098d8, 0x8b44f7af, 0xffff5bb1, 0x895cd7be, 0x6b901122, 0xfd987193, 0xa679438e, 0x49b40821,
      0xf61e2562, 0xc040b340, 0x265e5a51, 0xe9b6c7aa, 0xd62f105d, 0x02441453, 0xd8a1e681, 0xe7d3fbc8,
      0x21e1cde6, 0xc33707d6, 0xf4d50d87, 0x455a14ed, 0xa9e3e905, 0xfcefa3f8, 0x676f02d9, 0x8d2a4c8a,
      0xfffa3942, 0x8771f681, 0x6d9d6122, 0xfde5380c, 0xa4beea44, 0x4bdecfa9, 0xf6bb4b60, 0xbebfbc70,
      0x289b7ec6, 0xeaa127fa, 0xd4ef3085, 0x04881d05, 0xd9d4d039, 0xe6db99e5, 0x1fa27cf8, 0xc4ac5665,
      0xf4292244, 0x432aff97, 0xab9423a7, 0xfc93a039, 0x655b59c3, 0x8f0ccc92, 0xffeff47d, 0x85845dd1,
      0x6fa87e4f, 0xfe2ce6e0, 0xa3014314, 0x4e0811a1, 0xf7537e82, 0xbd3af235, 0x2ad7d2bb, 0xeb86d391]"

definition rotl32 :: "u32 \<Rightarrow> nat \<Rightarrow> u32" where
  "rotl32 x n = push_bit n x OR drop_bit (32 - n) x"

definition md5_step :: "u32 list \<Rightarrow> nat \<Rightarrow> u32 \<times> u32 \<times> u32 \<times> u32 \<Rightarrow> u32 \<times> u32 \<times> u32 \<times> u32" where
  "md5_step m i st =
     (case st of (a, b, c, d) \<Rightarrow>
        let (f, g) =
              (if i < 16 then ((b AND c) OR (NOT b AND d), i)
               else if i < 32 then ((d AND b) OR (NOT d AND c), (5 * i + 1) mod 16)
               else if i < 48 then (b XOR c XOR d, (3 * i + 5) mod 16)
               else (c XOR (b OR NOT d), (7 * i) mod 16));
            f' = f + a + md5_table ! i + m ! g
        in (d, b + rotl32 f' (md5_shifts ! i), b, c))"

definition md5_block :: "u32 \<times> u32 \<times> u32 \<times> u32 \<Rightarrow> u32 list \<Rightarrow> u32 \<times> u32 \<times> u32 \<times> u32" where
  "md5_block st m =
     (case st of (a0, b0, c0, d0) \<Rightarrow>
        case foldl (\<lambda>s i. md5_step m i s) st [0..<64] of
          (a, b, c, d) \<Rightarrow> (a0 + a, b0 + b, c0 + c, d0 + d))"

definition bytes_of :: "string \<Rightarrow> byte list" where
  "bytes_of s = map of_char s"

definition le_word :: "byte list \<Rightarrow> u32" where
  "le_word bs = foldr (\<lambda>b w. ucast b + push_bit 8 w) bs 0"

fun chunks :: "nat \<Rightarrow> nat \<Rightarrow> 'a list \<Rightarrow> 'a list list" where
  "chunks 0 k xs = []"
| "chunks (Suc n) k xs = take k xs # chunks n k (drop k xs)"

definition md5_pad :: "byte list \<Rightarrow> byte list" where
  "md5_pad msg =
     msg @ [0x80] @ replicate ((119 - length msg mod 64) mod 64) 0x00
       @ map (\<lambda>i. of_nat (drop_bit (8 * i) (8 * length msg))) [0..<8]"

definition le_bytes :: "u32 \<Rightarrow> byte list" where
  "le_bytes w = map (\<lambda>i. ucast (drop_bit (8 * i) w)) [0..<4]"

definition md5_Sum :: "byte list \<Rightarrow> byte list" where
  "md5_Sum msg =
     (let p = md5_pad msg;
          blocks = map (\<lambda>b. map le_word (chunks 16 4 b)) (chunks (length p div 64) 64 p)
      in case foldl md5_block (0x67452301, 0xefcdab89, 0x98badcfe, 0x10325476) blocks of
           (a, b, c, d) \<Rightarrow> le_bytes a @ le_bytes b @ le_bytes c @ le_bytes d)"

definition hex_lower :: "byte list \<Rightarrow> string" where
  "hex_lower bs =
     concat (map (\<lambda>b. [''0123456789abcdef'' ! (unat b div 16),
                        ''0123456789abcdef'' ! (unat b mod 16)]) bs)"

section \<open>Errors and the device\<close>

text \<open>
  The errors the client returns. The device is the function the HTTP client computes:
  for the URL of a GET request, either a transport error or the response, of which the
  client reads the status and the body.
\<close>

datatype error =
  TransportError
| AuthenticationFailed
| SetValueFailed nat
| SetValuesFailed nat
| XMLSyntaxError
| XMLUnmarshalError

record http_response =
  StatusCode :: nat
  Body :: string

type_synonym device = "string \<Rightarrow> error + http_response"

text \<open>A call either returns or panics (an index out of range).\<close>

datatype 'a outcome = Panic | Return 'a

section \<open>Value codec\<close>

text \<open>
  \<open>decodeTemperature\<close> computes with the exact values: the quotient \<open>float64(n) / 10.0\<close>
  is the exact quotient, of which the Go result is the correctly rounded \<open>float64\<close> (so
  the model's \<open>1 / 10\<close> is what Go prints as \<open>0.1\<close>); every result is finite.

  The conversion \<open>int(rawValue)\<close> discards the fraction, truncating towards zero, when
  the truncated value fits the 64-bit \<open>int\<close>. For every other \<open>float64\<close> (a finite one
  beyond that range, an infinity, a NaN) the conversion succeeds with a value that Go
  leaves to the implementation: the parameter \<open>unrepresentable\<close> gives that 64-bit
  value. On amd64 it is the least \<open>int\<close> for every such \<open>float64\<close>.
\<close>

definition toward_zero :: "real \<Rightarrow> int" where
  "toward_zero x = (if 0 \<le> x then \<lfloor>x\<rfloor> else \<lceil>x\<rceil>)"

definition float_to_int :: "(float64 \<Rightarrow> 64 word) \<Rightarrow> float64 \<Rightarrow> int" where
  "float_to_int unrepresentable x =
     (case x of
        Finite r \<Rightarrow>
          if - (2 ^ 63) \<le> toward_zero r \<and> toward_zero r < 2 ^ 63 then toward_zero r
          else sint (unrepresentable x)
      | _ \<Rightarrow> sint (unrepresentable x))"

definition unrepresentable_amd64 :: "float64 \<Rightarrow> 64 word" where
  "unrepresentable_amd64 x = 0x8000000000000000"

definition decodeTemperature :: "(float64 \<Rightarrow> 64 word) \<Rightarrow> float64 \<Rightarrow> real" where
  "decodeTemperature unrepresentable rawValue =
     (let rawInt = float_to_int unrepresentable rawValue in
      if rawInt \<ge> 65036 then real_of_int (rawInt - 65536) / 10
      else if rawInt \<ge> 1 \<and> rawInt \<le> 1300 then real_of_int rawInt / 10
      else 0)"

text \<open>Addition and left shift on Go's 64-bit \<open>int\<close> wrap around.\<close>

definition wrap64 :: "int \<Rightarrow> int" where
  "wrap64 x = (x + 2 ^ 63) mod 2 ^ 64 - 2 ^ 63"

definition int_add :: "int \<Rightarrow> int \<Rightarrow> int" where
  "int_add a b = wrap64 (a + b)"

definition int_shl :: "int \<Rightarrow> nat \<Rightarrow> int" where
  "int_shl a n = wrap64 (a * 2 ^ n)"

text \<open>
  \<open>IPParameterEncoder\<close> returns a map and an error. The map is nil (\<open>None\<close>) when the
  address does not split into four parts; the error is nil on every path. The error of
  \<open>strconv.Atoi\<close> is discarded and its value used.
\<close>

definition IPParameterEncoder :: "string \<Rightarrow> (string \<rightharpoonup> string) option \<times> error option" where
  "IPParameterEncoder ip =
     (let parts = Split ip CHR ''.'' in
      if length parts \<noteq> 4 then (None, None)
      else
        let octets = map (\<lambda>p. fst (Atoi p)) parts;
            low = int_add (octets ! 0) (int_shl (octets ! 1) 8);
            high = int_add (octets ! 2) (int_shl (octets ! 3) 8)
        in (Some [''low'' \<mapsto> Itoa low, ''high'' \<mapsto> Itoa high], None))"

definition IPParameterDecoder :: "int \<Rightarrow> int \<Rightarrow> string" where
  "IPParameterDecoder low high =
     (let octet1 = low AND 255;
          octet2 = drop_bit 8 low AND 255;
          octet3 = high AND 255;
          octet4 = drop_bit 8 high AND 255
      in Itoa octet1 @ ''.'' @ Itoa octet2 @ ''.'' @ Itoa octet3 @ ''.'' @ Itoa octet4)"

text \<open>
  Decoding what the encoder produced, as \<open>ExampleIPAddressHandling\<close> does: the two
  entries of the map are read back as integers and passed to the decoder.
\<close>

definition IPRoundTrip :: "string \<Rightarrow> string option" where
  "IPRoundTrip ip =
     (case IPParameterEncoder ip of
        (None, _) \<Rightarrow> None
      | (Some params, _) \<Rightarrow>
          (case (params ''low'', params ''high'') of
             (Some l, Some h) \<Rightarrow> Some (IPParameterDecoder (fst (Atoi l)) (fst (Atoi h)))
           | _ \<Rightarrow> None))"

section \<open>Session client\<close>

record WebClient =
  baseURL :: string
  auth :: string

text \<open>
  \<open>Login\<close> takes the device and the nonce that \<open>generateRandomString(3)\<close> drew, and
  returns the session identifier or the error together with the client after the call.
  \<open>Login_URL\<close> is the URL of its one request; \<open>Login_sessionID\<close> is step 4, the
  extraction of the identifier from the response body, \<open>None\<close> when control reaches the
  final error.
\<close>

definition Login_URL :: "WebClient \<Rightarrow> string \<Rightarrow> string \<Rightarrow> string" where
  "Login_URL wc randStr password =
     (let magic = hex_lower (md5_Sum (bytes_of ([CHR 0x0D, CHR 0x0A] @ password)));
          params = Values_Set (Values_Set [] ''magic'' magic) ''rnd'' randStr
      in baseURL wc @ ''/config/login.cgi?'' @ Encode params)"

definition Login_sessionID :: "string \<Rightarrow> string option" where
  "Login_sessionID body =
     (let responseStr = TrimSpace body in
      case Index responseStr ''<root'' of
        None \<Rightarrow> None
      | Some rootStart \<Rightarrow>
          (case Index (drop rootStart responseStr) ''>'' of
             None \<Rightarrow> None
           | Some gt \<Rightarrow>
               let start = rootStart + gt + 1 in
               (case Index responseStr ''</root>'' of
                  None \<Rightarrow> None
                | Some endTag \<Rightarrow>
                    if start < endTag then
                      let sessionID = TrimSpace (take (endTag - start) (drop start responseStr)) in
                      if sessionID \<noteq> [] \<and> sessionID \<noteq> ''0'' \<and> sessionID \<noteq> ''denied''
                      then (if snd (Atoi sessionID) = None then Some sessionID else None)
                      else None
                    else None)))"

definition Login :: "device \<Rightarrow> string \<Rightarrow> WebClient \<Rightarrow> string \<Rightarrow> (error + string) \<times> WebClient" where
  "Login dev randStr wc password =
     (case dev (Login_URL wc randStr password) of
        Inl err \<Rightarrow> (Inl err, wc)
      | Inr resp \<Rightarrow>
          (case Login_sessionID (Body resp) of
             Some sessionID \<Rightarrow> (Inr sessionID, wc\<lparr>auth := sessionID\<rparr>)
           | None \<Rightarrow> (Inl AuthenticationFailed, wc)))"

text \<open>
  \<open>SetValue\<close> indexes the split parameter at 0 and at 1 before it builds the request:
  with fewer than two parts the second index panics.
\<close>

definition SetValue_URL :: "WebClient \<Rightarrow> string \<Rightarrow> string" where
  "SetValue_URL wc parameter =
     (let params = Values_Set [] ''auth'' (auth wc);
          params = Values_Set params (Split parameter CHR ''='' ! 0) (Split parameter CHR ''='' ! 1)
      in baseURL wc @ ''/config/xml.cgi?'' @ Encode params)"

definition SetValue :: "device \<Rightarrow> WebClient \<Rightarrow> string \<Rightarrow> error option outcome" where
  "SetValue dev wc parameter =
     (if length (Split parameter CHR ''='') < 2 then Panic
      else
        case dev (SetValue_URL wc parameter) of
          Inl err \<Rightarrow> Return (Some err)
        | Inr resp \<Rightarrow>
            if StatusCode resp \<noteq> 200 then Return (Some (SetValueFailed (StatusCode resp)))
            else Return None)"

fun SetMultipleValues_params :: "Values \<Rightarrow> string list \<Rightarrow> Values" where
  "SetMultipleValues_params params [] = params"
| "SetMultipleValues_params params (param # rest) =
     (let parts = Split param CHR ''='' in
      SetMultipleValues_params
        (if length parts = 2 then Values_Set params (parts ! 0) (parts ! 1) else params) rest)"

definition SetMultipleValues_URL :: "WebClient \<Rightarrow> string list \<Rightarrow> string" where
  "SetMultipleValues_URL wc parameters =
     baseURL wc @ ''/config/xml.cgi?'' @
       Encode (SetMultipleValues_params (Values_Set [] ''auth'' (auth wc)) parameters)"

definition SetMultipleValues :: "device \<Rightarrow> WebClient \<Rightarrow> string list \<Rightarrow> error option" where
  "SetMultipleValues dev wc parameters =
     (case dev (SetMultipleValues_URL wc parameters) of
        Inl err \<Rightarrow> Some err
      | Inr resp \<Rightarrow>
          if StatusCode resp \<noteq> 200 then Some (SetValuesFailed (StatusCode resp)) else None)"

section \<open>Snapshot parser\<close>

text \<open>
  \<open>xml.Unmarshal\<close> fills the struct \<open>root\<close>, of which \<open>ParseXMLData\<close> reads the four item
  slices \<open>root.RD5.IntegerR.Items\<close> to \<open>root.RD5.EnumR.Items\<close>. The decoder is a
  parameter of \<open>ParseXMLData\<close>: what is proved of every document holds for any decoder.
\<close>

record item =
  ID :: string
  Value :: string

record xml_root =
  IntegerR :: "item list"
  StringR :: "item list"
  FloatR :: "item list"
  EnumR :: "item list"

record DeviceData =
  Items :: "string \<rightharpoonup> string"

fun collect_items :: "(string \<rightharpoonup> string) \<Rightarrow> item list \<Rightarrow> (string \<rightharpoonup> string)" where
  "collect_items m [] = m"
| "collect_items m (it # its) = collect_items (m(ID it \<mapsto> Value it)) its"

definition ParseXMLData :: "(string \<Rightarrow> error + xml_root) \<Rightarrow> string \<Rightarrow> error + DeviceData" where
  "ParseXMLData unmarshal xmlStr =
     (case unmarshal xmlStr of
        Inl err \<Rightarrow> Inl err
      | Inr decoded \<Rightarrow>
          Inr \<lparr>Items =
            collect_items (collect_items (collect_items (collect_items Map.empty
              (IntegerR decoded)) (StringR decoded)) (FloatR decoded)) (EnumR decoded)\<rparr>)"

subsection \<open>The decoder on plain documents\<close>

text \<open>
  \<open>xml_Unmarshal\<close> is \<open>xml.Unmarshal\<close> into \<open>root\<close> on plain documents: an optional
  declaration of version 1.0 (and encoding UTF-8), then start tags, end tags and
  empty-element tags, with ASCII names without a colon and quoted attribute values
  without \<open>&\<close> and \<open><\<close>, separated by white space only. The decoder reads up to the
  end of the first element and no further; that element must be \<open>RD5WEB\<close>, and the
  items are the \<open>O\<close> children of the section elements of its \<open>RD5\<close> children, in
  document order, each with its attributes \<open>I\<close> and \<open>V\<close> (the empty string when absent,
  the last one when repeated; a line end in a value reads as a line feed). Everything
  else (other character data, comments, CDATA sections, entities, namespaces, other
  declarations, names and values outside ASCII) is outside these documents: the model
  answers \<open>XMLSyntaxError\<close> there, or takes the bytes as they are. It is used to run the
  parser on concrete documents.
\<close>

datatype xml_node = Element string "(string \<times> string) list" "xml_node list"

fun node_name :: "xml_node \<Rightarrow> string" where
  "node_name (Element n a c) = n"

fun node_attrs :: "xml_node \<Rightarrow> (string \<times> string) list" where
  "node_attrs (Element n a c) = a"

fun node_children :: "xml_node \<Rightarrow> xml_node list" where
  "node_children (Element n a c) = c"

definition is_xml_space :: "char \<Rightarrow> bool" where
  "is_xml_space c = (c = CHR 0x20 \<or> c = CHR 0x09 \<or> c = CHR 0x0A \<or> c = CHR 0x0D)"

definition is_xml_name :: "string \<Rightarrow> bool" where
  "is_xml_name n =
     (n \<noteq> [] \<and> \<not> is_digit (hd n) \<and> hd n \<noteq> CHR ''-'' \<and> hd n \<noteq> CHR ''.'' \<and>
      list_all (\<lambda>c. is_alnum c \<or> c = CHR ''_'' \<or> c = CHR ''-'' \<or> c = CHR ''.'') n)"

definition xml_declarations :: "string list" where
  "xml_declarations =
     [''?xml version=\"1.0\"?'',
      ''?xml version=\"1.0\" encoding=\"UTF-8\"?'',
      ''?xml version=\"1.0\" encoding=\"utf-8\"?'']"

text \<open>
  The text between \<open><\<close> and \<open>>\<close> of each tag, in order; \<open>None\<close> ends the list where
  the input cannot be read on.
\<close>

datatype scan_state = Outside | InTag string "char option"

fun xml_tags :: "scan_state \<Rightarrow> string \<Rightarrow> string option list" where
  "xml_tags Outside [] = []"
| "xml_tags (InTag acc q) [] = [None]"
| "xml_tags Outside (c # cs) =
     (if c = CHR ''<'' then xml_tags (InTag [] None) cs
      else if is_xml_space c then xml_tags Outside cs
      else [None])"
| "xml_tags (InTag acc (Some q)) (c # cs) =
     xml_tags (InTag (c # acc) (if c = q then None else Some q)) cs"
| "xml_tags (InTag acc None) (c # cs) =
     (if c = CHR ''>'' then Some (rev acc) # xml_tags Outside cs
      else if c = CHR 0x22 \<or> c = CHR 0x27 then xml_tags (InTag (c # acc) (Some c)) cs
      else xml_tags (InTag (c # acc) None) cs)"

datatype attr_state =
  BeforeName | InName string | AfterName string | AfterEq string | InValue string char string

fun xml_attrs :: "attr_state \<Rightarrow> string \<Rightarrow> (string \<times> string) list option" where
  "xml_attrs BeforeName [] = Some []"
| "xml_attrs (InName acc) [] = None"
| "xml_attrs (AfterName n) [] = None"
| "xml_attrs (AfterEq n) [] = None"
| "xml_attrs (InValue n q acc) [] = None"
| "xml_attrs BeforeName (c # cs) =
     (if is_xml_space c then xml_attrs BeforeName cs else xml_attrs (InName [c]) cs)"
| "xml_attrs (InName acc) (c # cs) =
     (if c = CHR ''='' then xml_attrs (AfterEq (rev acc)) cs
      else if is_xml_space c then xml_attrs (AfterName (rev acc)) cs
      else xml_attrs (InName (c # acc)) cs)"
| "xml_attrs (AfterName n) (c # cs) =
     (if c = CHR ''='' then xml_attrs (AfterEq n) cs
      else if is_xml_space c then xml_attrs (AfterName n) cs
      else None)"
| "xml_attrs (AfterEq n) (c # cs) =
     (if c = CHR 0x22 \<or> c = CHR 0x27 then xml_attrs (InValue n c []) cs
      else if is_xml_space c then xml_attrs (AfterEq n) cs
      else None)"
| "xml_attrs (InValue n q acc) (c # cs) =
     (if c = q then map_option ((#) (n, rev acc)) (xml_attrs BeforeName cs)
      else if c = CHR ''&'' \<or> c = CHR ''<'' then None
      else if c = CHR 0x0D then
        (if cs \<noteq> [] \<and> hd cs = CHR 0x0A then xml_attrs (InValue n q acc) cs
         else xml_attrs (InValue n q (CHR 0x0A # acc)) cs)
      else xml_attrs (InValue n q (c # acc)) cs)"

datatype xml_token =
  StartElement string "(string \<times> string) list"
| EndElement string
| EmptyElement string "(string \<times> string) list"
| ProcInst

definition xml_token_of :: "string \<Rightarrow> xml_token option" where
  "xml_token_of tag =
     (if tag = [] then None
      else if hd tag = CHR ''?'' then (if tag \<in> set xml_declarations then Some ProcInst else None)
      else if hd tag = CHR ''!'' then None
      else if hd tag = CHR ''/'' then
        (let name = takeWhile (\<lambda>x. \<not> is_xml_space x) (tl tag) in
         if is_xml_name name \<and> list_all is_xml_space (dropWhile (\<lambda>x. \<not> is_xml_space x) (tl tag))
         then Some (EndElement name) else None)
      else
        let selfclose = (last tag = CHR ''/'');
            body = (if selfclose then butlast tag else tag);
            name = takeWhile (\<lambda>x. \<not> is_xml_space x) body;
            rest = dropWhile (\<lambda>x. \<not> is_xml_space x) body
        in if \<not> is_xml_name name then None
           else
             (case xml_attrs BeforeName rest of
                None \<Rightarrow> None
              | Some attrs \<Rightarrow>
                  if list_all is_xml_name (map fst attrs)
                  then Some (if selfclose then EmptyElement name attrs else StartElement name attrs)
                  else None))"

definition xml_tokens :: "string \<Rightarrow> xml_token option list" where
  "xml_tokens s =
     map (\<lambda>t. case t of None \<Rightarrow> None | Some tag \<Rightarrow> xml_token_of tag) (xml_tags Outside s)"

text \<open>
  The element whose start tag has been read, from the tokens after it: the stack holds
  the open elements, innermost first, and the tokens after the end of the outermost
  one are not looked at.
\<close>

type_synonym xml_frame = "string \<times> (string \<times> string) list \<times> xml_node list"

fun xml_build :: "xml_frame list \<Rightarrow> xml_token option list \<Rightarrow> xml_node option" where
  "xml_build st [] = None"
| "xml_build st (None # ts) = None"
| "xml_build st (Some ProcInst # ts) = xml_build st ts"
| "xml_build st (Some (StartElement n a) # ts) = xml_build ((n, a, []) # st) ts"
| "xml_build [] (Some (EmptyElement n a) # ts) = Some (Element n a [])"
| "xml_build ((pn, pa, ch) # st) (Some (EmptyElement n a) # ts) =
     xml_build ((pn, pa, Element n a [] # ch) # st) ts"
| "xml_build [] (Some (EndElement n) # ts) = None"
| "xml_build [(pn, pa, ch)] (Some (EndElement n) # ts) =
     (if n = pn then Some (Element pn pa (rev ch)) else None)"
| "xml_build ((pn, pa, ch) # (qn, qa, qch) # st) (Some (EndElement n) # ts) =
     (if n = pn then xml_build ((qn, qa, Element pn pa (rev ch) # qch) # st) ts else None)"

definition children_named :: "string \<Rightarrow> xml_node \<Rightarrow> xml_node list" where
  "children_named n e = filter (\<lambda>c. node_name c = n) (node_children e)"

definition attr_value :: "string \<Rightarrow> xml_node \<Rightarrow> string" where
  "attr_value a e = (case map_of (rev (node_attrs e)) a of Some v \<Rightarrow> v | None \<Rightarrow> [])"

definition section_items :: "string \<Rightarrow> xml_node \<Rightarrow> item list" where
  "section_items sec e =
     map (\<lambda>x. \<lparr>ID = attr_value ''I'' x, Value = attr_value ''V'' x\<rparr>)
       (concat (map (children_named ''O'')
          (concat (map (children_named sec) (children_named ''RD5'' e)))))"

definition decoded_root :: "xml_node \<Rightarrow> xml_root" where
  "decoded_root e =
     \<lparr>IntegerR = section_items ''INTEGER_R'' e,
      StringR = section_items ''STRING_R'' e,
      FloatR = section_items ''FLOAT_R'' e,
      EnumR = section_items ''ENUM_R'' e\<rparr>"

text \<open>
  The tokens before the first element are passed over; the name of that element is
  checked when its start tag is read.
\<close>

definition xml_Unmarshal :: "string \<Rightarrow> error + xml_root" where
  "xml_Unmarshal s =
     (case dropWhile (\<lambda>t. t = Some ProcInst) (xml_tokens s) of
        Some (StartElement n a) # ts \<Rightarrow>
          if n \<noteq> ''RD5WEB'' then Inl XMLUnmarshalError
          else (case xml_build [(n, a, [])] ts of
                  None \<Rightarrow> Inl XMLSyntaxError
                | Some e \<Rightarrow> Inr (decoded_root e))
      | Some (EmptyElement n a) # ts \<Rightarrow>
          if n \<noteq> ''RD5WEB'' then Inl XMLUnmarshalError
          else Inr (decoded_root (Element n a []))
      | _ \<Rightarrow> Inl XMLSyntaxError)"

section \<open>Parameter catalog\<close>

text \<open>
  \<open>GetCurrentTemperature\<close> walks \<open>tempIDs\<close> and returns at the first identifier that is in
  the snapshot with a value that \<open>strconv.ParseFloat\<close> accepts; its error is nil on every
  path.
\<close>

fun temperature_of_first ::
  "(float64 \<Rightarrow> 64 word) \<Rightarrow> (string \<Rightarrow> float64 option) \<Rightarrow> (string \<rightharpoonup> string) \<Rightarrow> string list \<Rightarrow> real option"
where
  "temperature_of_first unrepresentable parseFloat items [] = None"
| "temperature_of_first unrepresentable parseFloat items (k # ids) =
     (case items k of
        Some val \<Rightarrow>
          (case parseFloat val of
             Some temp \<Rightarrow> Some (decodeTemperature unrepresentable temp)
           | None \<Rightarrow> temperature_of_first unrepresentable parseFloat items ids)
      | None \<Rightarrow> temperature_of_first unrepresentable parseFloat items ids)"

definition current_tempIDs :: "string list" where
  "current_tempIDs = [''I10215'', ''I10222'', ''I10224'', ''I10225'', ''I10249'']"

definition GetCurrentTemperature ::
  "(float64 \<Rightarrow> 64 word) \<Rightarrow> (string \<Rightarrow> float64 option) \<Rightarrow> DeviceData \<Rightarrow> real \<times> error option"
where
  "GetCurrentTemperature unrepresentable parseFloat d =
     (case temperature_of_first unrepresentable parseFloat (Items d) current_tempIDs of
        Some t \<Rightarrow> (t, None)
      | None \<Rightarrow> (0, None))"

section \<open>Notions of the specification\<close>

text \<open>The dotted-quad spelling of four octets: decimal, no sign, no leading zeros.\<close>

definition dotted_quad :: "int \<Rightarrow> int \<Rightarrow> int \<Rightarrow> int \<Rightarrow> string" where
  "dotted_quad a b c d = Itoa a @ ''.'' @ Itoa b @ ''.'' @ Itoa c @ ''.'' @ Itoa d"

text \<open>\<open>substr\<close> occurs in \<open>s\<close> at index \<open>i\<close> and nowhere before.\<close>

definition first_occurrence :: "string \<Rightarrow> string \<Rightarrow> nat \<Rightarrow> bool" where
  "first_occurrence s substr i =
     (i \<le> length s \<and> prefix substr (drop i s) \<and> (\<forall>j<i. \<not> prefix substr (drop j s)))"

text \<open>An optional sign and one or more decimal digits, of a value in the 64-bit range.\<close>

definition int_literal :: "string \<Rightarrow> bool" where
  "int_literal s =
     (let signed = (s \<noteq> [] \<and> (hd s = CHR ''+'' \<or> hd s = CHR ''-''));
          ds = (if signed then tl s else s)
      in ds \<noteq> [] \<and> list_all is_digit ds \<and>
         (if s \<noteq> [] \<and> hd s = CHR ''-'' then decimal_value ds \<le> 2 ^ 63
          else decimal_value ds < 2 ^ 63))"





text \<open>The value a section gives an identifier: that of its last item with the identifier.\<close>

definition section_value :: "item list \<Rightarrow> string \<Rightarrow> string option" where
  "section_value items k = map_of (rev (map (\<lambda>i. (ID i, Value i)) items)) k"

text \<open>An identifier is readable when the snapshot has it with a value the parser accepts.\<close>

definition readable :: "(string \<Rightarrow> float64 option) \<Rightarrow> DeviceData \<Rightarrow> string \<Rightarrow> bool" where
  "readable parseFloat d k =
     (case Items d k of Some val \<Rightarrow> parseFloat val \<noteq> None | None \<Rightarrow> False)"

text \<open>
  Devices for the examples: one answers every request with the same status, one with
  status 200 and the same body, one serves a body at a single URL and is unreachable
  elsewhere.
\<close>

definition device_answering :: "nat \<Rightarrow> device" where
  "device_answering st = (\<lambda>url. Inr \<lparr>StatusCode = st, Body = []\<rparr>)"

definition device_replying :: "string \<Rightarrow> device" where
  "device_replying body = (\<lambda>url. Inr \<lparr>StatusCode = 200, Body = body\<rparr>)"

definition device_serving :: "string \<Rightarrow> string \<Rightarrow> device" where
  "device_serving expected body =
     (\<lambda>url. if url = expected then Inr \<lparr>StatusCode = 200, Body = body\<rparr> else Inl TransportError)"

definition snapshot_unparsable_first :: DeviceData where
  "snapshot_unparsable_first = \<lparr>Items = [''I10215'' \<mapsto> ''abc'', ''I10222'' \<mapsto> ''201'']\<rparr>"

definition snapshot_infinite_first :: DeviceData where
  "snapshot_infinite_first = \<lparr>Items = [''I10215'' \<mapsto> ''Inf'', ''I10222'' \<mapsto> ''201'']\<rparr>"

definition snapshot_huge_first :: DeviceData where
  "snapshot_huge_first =
     \<lparr>Items = [''I10215'' \<mapsto> ''10000000000000000000000'', ''I10222'' \<mapsto> ''201'']\<rparr>"

section \<open>Evaluation rules and library facts\<close>

lemmas str_eval = TrimSpace_def TrimLeft_space.simps TrimRight_space.simps leading_space_def
  trailing_space_def space_runes_def Atoi_def ParseInt_def ParseUint_def is_digit_def digit_val_def
  maxUint64_def less_eq_char_def

lemmas url_eval = Encode_def QueryEscape_def shouldEscape_def is_alnum_def less_eq_char_def

lemmas xml_eval = xml_Unmarshal_def xml_tokens_def decoded_root_def xml_token_of_def is_xml_space_def
  is_xml_name_def xml_declarations_def is_alnum_def is_digit_def less_eq_char_def
  section_items_def children_named_def attr_value_def Let_def

lemmas float_eval = ParseFloat_def special_def readFloat_def read_sign_def read_base_def
  read_mantissa_def read_exponent_def underscoreOK_def to_lower_def is_digit_def is_hex_letter_def
  digits_value_def hex_val_def digit_val_def less_eq_char_def round_float64_def round_even_def
  binade_def power_of_def bit_length.simps Let_def

lemma float_to_int_of_int:
  "- (2 ^ 63) \<le> n \<Longrightarrow> n < 2 ^ 63 \<Longrightarrow> float_to_int unrepresentable (Finite (real_of_int n)) = n"
  by (simp add: float_to_int_def toward_zero_def)

lemma float_to_int_amd64:
  assumes "x \<in> {PosInf, NegInf, NaN} \<or> (\<exists>r. x = Finite r \<and> (r \<le> - (2 ^ 63) - 1 \<or> 2 ^ 63 \<le> r))"
  shows "float_to_int unrepresentable_amd64 x = - (2 ^ 63)"
proof -
  have m: "sint (0x8000000000000000 :: 64 word) = - (2 ^ 63)"
    by simp
  from assms show ?thesis
  proof
    assume "x \<in> {PosInf, NegInf, NaN}"
    then show ?thesis
      by (auto simp: float_to_int_def unrepresentable_amd64_def m)
  next
    assume "\<exists>r. x = Finite r \<and> (r \<le> - (2 ^ 63) - 1 \<or> 2 ^ 63 \<le> r)"
    then obtain r where x: "x = Finite r" and r: "r \<le> - (2 ^ 63) - 1 \<or> 2 ^ 63 \<le> r"
      by blast
    from r have "\<not> (- (2 ^ 63) \<le> toward_zero r \<and> toward_zero r < 2 ^ 63)"
    proof
      assume "r \<le> - (2 ^ 63) - 1"
      then have "toward_zero r < - (2 ^ 63)"
        by (simp add: toward_zero_def ceiling_less_iff)
      then show ?thesis by simp
    next
      assume "2 ^ 63 \<le> r"
      then have "2 ^ 63 \<le> toward_zero r"
        by (simp add: toward_zero_def le_floor_iff)
      then show ?thesis by simp
    qed
    then have "float_to_int unrepresentable_amd64 (Finite r) = sint (unrepresentable_amd64 (Finite r))"
      unfolding float_to_int_def by auto
    with x show ?thesis
      by (simp add: unrepresentable_amd64_def m)
  qed
qed

lemma decodeTemperature_amd64_unrepresentable:
  assumes "x \<in> {PosInf, NegInf, NaN} \<or> (\<exists>r. x = Finite r \<and> (r \<le> - (2 ^ 63) - 1 \<or> 2 ^ 63 \<le> r))"
  shows "decodeTemperature unrepresentable_amd64 x = 0"
  using float_to_int_amd64 [OF assms] by (simp add: decodeTemperature_def)

subsection \<open>Digits, \<open>Itoa\<close> and \<open>Atoi\<close>\<close>

lemma digit_char_props:
  assumes "d < 10"
  shows "is_digit (digit_char d)" and "digit_val (digit_char d) = d"
    and "digit_char d \<noteq> CHR ''.''" and "digit_char d \<noteq> CHR ''-''" and "digit_char d \<noteq> CHR ''+''"
proof -
  from assms have "d \<in> {0, 1, 2, 3, 4, 5, 6, 7, 8, 9}"
    by (simp; arith)
  then show "is_digit (digit_char d)" and "digit_val (digit_char d) = d"
    and "digit_char d \<noteq> CHR ''.''" and "digit_char d \<noteq> CHR ''-''" and "digit_char d \<noteq> CHR ''+''"
    by (auto simp: digit_char_def is_digit_def digit_val_def less_eq_char_def)
qed

lemma digits10_small: "n < 10 \<Longrightarrow> digits10 n = [digit_char n]"
  by (subst digits10.simps) simp

lemma digits10_large:
  "\<not> n < 10 \<Longrightarrow> digits10 n = digits10 (n div 10) @ [digit_char (n mod 10)]"
  by (subst digits10.simps) simp

lemma digits10_ne: "digits10 n \<noteq> []"
  by (cases "n < 10") (simp_all add: digits10_small digits10_large)

lemma digits10_set: "c \<in> set (digits10 n) \<Longrightarrow> \<exists>d<10. c = digit_char d"
proof (induction n arbitrary: c rule: digits10.induct)
  case (1 n)
  show ?case
  proof (cases "n < 10")
    case True
    with "1.prems" show ?thesis by (auto simp: digits10_small)
  next
    case False
    from "1.prems" False have "c \<in> set (digits10 (n div 10)) \<or> c = digit_char (n mod 10)"
      by (auto simp: digits10_large)
    then show ?thesis
    proof
      assume "c \<in> set (digits10 (n div 10))"
      with "1.IH" False show ?thesis by blast
    next
      assume "c = digit_char (n mod 10)"
      moreover have "n mod 10 < 10" by simp
      ultimately show ?thesis by blast
    qed
  qed
qed

lemma digits10_no_dot: "CHR ''.'' \<notin> set (digits10 n)"
proof
  assume "CHR ''.'' \<in> set (digits10 n)"
  then obtain d where "d < 10" "CHR ''.'' = digit_char d"
    using digits10_set by blast
  then show False using digit_char_props(3) [of d] by simp
qed

lemma hd_digits10: "\<exists>d<10. hd (digits10 n) = digit_char d"
proof -
  have "hd (digits10 n) \<in> set (digits10 n)" using digits10_ne by simp
  then show ?thesis by (rule digits10_set)
qed

lemma ParseUint_loop_append:
  "ParseUint_loop n (xs @ ys) =
     (case ParseUint_loop n xs of (m, None) \<Rightarrow> ParseUint_loop m ys | (m, Some e) \<Rightarrow> (m, Some e))"
  by (induction xs arbitrary: n) (auto simp: Let_def)

lemma ParseUint_loop_digits10:
  "n \<le> maxUint64 \<Longrightarrow> ParseUint_loop 0 (digits10 n) = (n, None)"
proof (induction n rule: digits10.induct)
  case (1 n)
  show ?case
  proof (cases "n < 10")
    case True
    then have "digits10 n = [digit_char n]" by (rule digits10_small)
    with True show ?thesis
      by (simp add: digit_char_props maxUint64_def)
  next
    case False
    then have eq: "digits10 n = digits10 (n div 10) @ [digit_char (n mod 10)]"
      by (rule digits10_large)
    have le: "n div 10 \<le> maxUint64" using "1.prems" by simp
    have ih: "ParseUint_loop 0 (digits10 (n div 10)) = (n div 10, None)"
      using "1.IH" False le by simp
    have d: "n mod 10 < 10" by simp
    have small: "\<not> n div 10 \<ge> maxUint64 div 10 + 1"
      using "1.prems" by (simp add: maxUint64_def)
    have recomp: "n div 10 * 10 + n mod 10 = n" by simp
    show ?thesis
      unfolding eq ParseUint_loop_append ih
      using small "1.prems" by (simp add: digit_char_props [OF d] recomp)
  qed
qed

lemma ParseUint_digits10: "n \<le> maxUint64 \<Longrightarrow> ParseUint (digits10 n) = (n, None)"
  by (simp add: ParseUint_def digits10_ne ParseUint_loop_digits10)

lemma Atoi_Itoa:
  assumes "- (2 ^ 63) \<le> i" and "i < 2 ^ 63"
  shows "Atoi (Itoa i) = (i, None)"
proof (cases "i < 0")
  case True
  have "nat (- i) \<le> maxUint64" using assms by (simp add: maxUint64_def)
  then have pu: "ParseUint (digits10 (nat (- i))) = (nat (- i), None)"
    by (rule ParseUint_digits10)
  have "\<not> nat (- i) > 2 ^ 63" using assms by simp
  with True pu show ?thesis
    by (simp add: Atoi_def ParseInt_def Itoa_def)
next
  case False
  obtain d where d: "d < 10" "hd (digits10 (nat i)) = digit_char d"
    using hd_digits10 by blast
  have "nat i \<le> maxUint64" using assms by (simp add: maxUint64_def)
  then have pu: "ParseUint (digits10 (nat i)) = (nat i, None)"
    by (rule ParseUint_digits10)
  have "\<not> nat i \<ge> 2 ^ 63" using assms False by simp
  with False pu d show ?thesis
    by (simp add: Atoi_def ParseInt_def Itoa_def digits10_ne digit_char_props)
qed

lemma Split_no_sep: "sep \<notin> set xs \<Longrightarrow> Split xs sep = [xs]"
  by (induction xs) (auto simp: Let_def)

lemma Split_append_sep:
  "sep \<notin> set xs \<Longrightarrow> Split (xs @ sep # ys) sep = xs # Split ys sep"
  by (induction xs) (auto simp: Let_def)

lemma Atoi_ErrSyntax_zero: "snd (Atoi p) = Some ErrSyntax \<Longrightarrow> fst (Atoi p) = 0"
  by (auto simp: Atoi_def ParseInt_def Let_def split: if_splits prod.splits)

lemma Atoi_ErrRange_saturates:
  "snd (Atoi p) = Some ErrRange \<Longrightarrow>
     fst (Atoi p) = (if hd p = CHR ''-'' then - (2 ^ 63) else 2 ^ 63 - 1)"
  by (auto simp: Atoi_def ParseInt_def Let_def split: if_splits prod.splits)

lemma foldl_decimal_mono: "n \<le> foldl (\<lambda>n c. n * 10 + digit_val c) n ds"
proof (induction ds arbitrary: n)
  case Nil
  show ?case by simp
next
  case (Cons c ds)
  have "n \<le> n * 10 + digit_val c" by simp
  also have "\<dots> \<le> foldl (\<lambda>n c. n * 10 + digit_val c) (n * 10 + digit_val c) ds"
    by (rule Cons.IH)
  finally show ?case by simp
qed

lemma ParseUint_loop_digits:
  "list_all is_digit ds \<Longrightarrow> n \<le> maxUint64 \<Longrightarrow>
   ParseUint_loop n ds =
     (if foldl (\<lambda>n c. n * 10 + digit_val c) n ds \<le> maxUint64
      then (foldl (\<lambda>n c. n * 10 + digit_val c) n ds, None)
      else (maxUint64, Some ErrRange))"
proof (induction ds arbitrary: n)
  case Nil
  then show ?case by simp
next
  case (Cons c ds)
  let ?n' = "n * 10 + digit_val c"
  from Cons.prems have dc: "is_digit c" and dds: "list_all is_digit ds" by simp_all
  have mono: "?n' \<le> foldl (\<lambda>n c. n * 10 + digit_val c) ?n' ds"
    by (rule foldl_decimal_mono)
  show ?case
  proof (cases "n \<ge> maxUint64 div 10 + 1")
    case True
    then have "?n' > maxUint64" by (simp add: maxUint64_def)
    with mono have "\<not> foldl (\<lambda>n c. n * 10 + digit_val c) ?n' ds \<le> maxUint64" by simp
    with True dc show ?thesis by simp
  next
    case False
    show ?thesis
    proof (cases "?n' > maxUint64")
      case True
      with mono have "\<not> foldl (\<lambda>n c. n * 10 + digit_val c) ?n' ds \<le> maxUint64" by simp
      with True False dc show ?thesis by simp
    next
      case big: False
      then have "?n' \<le> maxUint64" by simp
      from Cons.IH [OF dds this] big False dc show ?thesis by simp
    qed
  qed
qed

lemma ParseUint_loop_non_digit:
  "\<not> list_all is_digit ds \<Longrightarrow> snd (ParseUint_loop n ds) \<noteq> None"
  by (induction ds arbitrary: n) (auto simp: Let_def)

lemma ParseUint_ok_iff:
  "snd (ParseUint ds) = None \<longleftrightarrow> ds \<noteq> [] \<and> list_all is_digit ds \<and> decimal_value ds \<le> maxUint64"
proof (cases "list_all is_digit ds")
  case True
  then show ?thesis
    by (auto simp: ParseUint_def ParseUint_loop_digits decimal_value_def maxUint64_def)
next
  case False
  then show ?thesis
    using ParseUint_loop_non_digit [of ds 0] by (auto simp: ParseUint_def)
qed

lemma ParseUint_value:
  "snd (ParseUint ds) = None \<Longrightarrow> fst (ParseUint ds) = decimal_value ds"
proof -
  assume a: "snd (ParseUint ds) = None"
  then have "ds \<noteq> []" "list_all is_digit ds" "decimal_value ds \<le> maxUint64"
    by (simp_all add: ParseUint_ok_iff)
  then show ?thesis
    by (simp add: ParseUint_def ParseUint_loop_digits decimal_value_def maxUint64_def)
qed

lemma ParseUint_ErrRange:
  "snd (ParseUint ds) = Some ErrRange \<Longrightarrow> fst (ParseUint ds) = maxUint64"
proof -
  have "snd (ParseUint_loop n ds) = Some ErrRange \<Longrightarrow> fst (ParseUint_loop n ds) = maxUint64" for n
    by (induction ds arbitrary: n) (auto simp: Let_def split: if_splits)
  moreover assume "snd (ParseUint ds) = Some ErrRange"
  ultimately show ?thesis by (auto simp: ParseUint_def split: if_splits)
qed

lemma Atoi_ok_iff: "snd (Atoi s) = None \<longleftrightarrow> int_literal s"
proof (cases "s = []")
  case True
  then show ?thesis by (simp add: Atoi_def ParseInt_def int_literal_def)
next
  case False
  define ds where "ds = (if hd s = CHR ''+'' \<or> hd s = CHR ''-'' then tl s else s)"
  obtain un err where pu: "ParseUint ds = (un, err)" by (cases "ParseUint ds")
  have lit: "int_literal s \<longleftrightarrow>
      ds \<noteq> [] \<and> list_all is_digit ds \<and>
      (if hd s = CHR ''-'' then decimal_value ds \<le> 2 ^ 63 else decimal_value ds < 2 ^ 63)"
    using False by (simp add: int_literal_def ds_def Let_def)
  have atoi: "snd (Atoi s) = None \<longleftrightarrow>
      err = None \<and> \<not> (hd s \<noteq> CHR ''-'' \<and> un \<ge> 2 ^ 63) \<and> \<not> (hd s = CHR ''-'' \<and> un > 2 ^ 63)"
  proof (cases err)
    case None
    with False pu show ?thesis
      by (auto simp: Atoi_def ParseInt_def Let_def ds_def [symmetric])
  next
    case (Some e)
    have "un = maxUint64" if "e = ErrRange"
      using ParseUint_ErrRange [of ds] pu Some that by simp
    with Some False pu show ?thesis
      by (cases e) (auto simp: Atoi_def ParseInt_def Let_def ds_def [symmetric] maxUint64_def)
  qed
  show ?thesis
  proof (cases err)
    case None
    then have ok: "ds \<noteq> []" "list_all is_digit ds" "decimal_value ds \<le> maxUint64"
      using ParseUint_ok_iff [of ds] pu by simp_all
    have "un = decimal_value ds"
      using ParseUint_value [of ds] pu None by simp
    with None ok atoi lit show ?thesis by auto
  next
    case (Some e)
    then have "\<not> (ds \<noteq> [] \<and> list_all is_digit ds \<and> decimal_value ds \<le> maxUint64)"
      using ParseUint_ok_iff [of ds] pu by simp
    then have "\<not> int_literal s"
      unfolding lit by (auto simp: maxUint64_def split: if_splits)
    with Some atoi show ?thesis by simp
  qed
qed

subsection \<open>\<open>Split\<close> and \<open>Index\<close>\<close>

lemma length_Split: "length (Split s sep) = Suc (length (filter (\<lambda>c. c = sep) s))"
  by (induction s) (auto simp: Let_def)

lemma Split_ne: "Split s sep \<noteq> []"
  using length_Split [of s sep] by auto

lemma length_Split_lt_2: "length (Split s sep) < 2 \<longleftrightarrow> sep \<notin> set s"
  by (auto simp: length_Split filter_empty_conv)

lemma Index_Some_iff: "Index s substr = Some i \<longleftrightarrow> first_occurrence s substr i"
proof (induction s arbitrary: i)
  case Nil
  show ?case by (auto simp: first_occurrence_def)
next
  case (Cons c s)
  show ?case
  proof (cases "prefix substr (c # s)")
    case True
    have "first_occurrence (c # s) substr i \<longleftrightarrow> i = 0"
    proof
      assume f: "first_occurrence (c # s) substr i"
      show "i = 0"
      proof (rule ccontr)
        assume "i \<noteq> 0"
        then have "0 < i" by simp
        with f have "\<not> prefix substr (drop 0 (c # s))"
          unfolding first_occurrence_def by blast
        with True show False by simp
      qed
    next
      assume "i = 0"
      with True show "first_occurrence (c # s) substr i"
        by (simp add: first_occurrence_def)
    qed
    with True show ?thesis by auto
  next
    case False
    have shift: "first_occurrence (c # s) substr (Suc k) \<longleftrightarrow> first_occurrence s substr k" for k
    proof -
      have "(\<forall>j<Suc k. \<not> prefix substr (drop j (c # s))) \<longleftrightarrow> (\<forall>j<k. \<not> prefix substr (drop j s))"
      proof
        assume a: "\<forall>j<Suc k. \<not> prefix substr (drop j (c # s))"
        show "\<forall>j<k. \<not> prefix substr (drop j s)"
        proof (intro allI impI)
          fix j assume "j < k"
          then have "Suc j < Suc k" by simp
          with a have "\<not> prefix substr (drop (Suc j) (c # s))" by blast
          then show "\<not> prefix substr (drop j s)" by simp
        qed
      next
        assume a: "\<forall>j<k. \<not> prefix substr (drop j s)"
        show "\<forall>j<Suc k. \<not> prefix substr (drop j (c # s))"
        proof (intro allI impI)
          fix j assume jk: "j < Suc k"
          show "\<not> prefix substr (drop j (c # s))"
          proof (cases j)
            case 0
            with False show ?thesis by simp
          next
            case (Suc j')
            with jk a show ?thesis by simp
          qed
        qed
      qed
      then show ?thesis by (simp add: first_occurrence_def)
    qed
    have zero: "\<not> first_occurrence (c # s) substr 0"
      using False by (simp add: first_occurrence_def)
    show ?thesis
    proof (cases i)
      case 0
      with False zero show ?thesis by simp
    next
      case (Suc k)
      with False Cons.IH [of k] shift [of k] show ?thesis by auto
    qed
  qed
qed

subsection \<open>Query strings\<close>

lemma hex_digit_unreserved:
  assumes "n < 16"
  shows "\<not> shouldEscape (''0123456789abcdef'' ! n)" and "''0123456789abcdef'' ! n \<noteq> CHR '' ''"
proof -
  from assms have "n \<in> {0, 1, 2, 3, 4, 5, 6, 7, 8, 9, 10, 11, 12, 13, 14, 15}"
    by (simp; arith)
  then show "\<not> shouldEscape (''0123456789abcdef'' ! n)" and "''0123456789abcdef'' ! n \<noteq> CHR '' ''"
    by (auto simp: shouldEscape_def is_alnum_def less_eq_char_def)
qed

lemma QueryEscape_Cons:
  "QueryEscape (c # s) =
     (if c = CHR '' '' then ''+''
      else if shouldEscape c
        then [CHR ''%'', ''0123456789ABCDEF'' ! (of_char c div 16), ''0123456789ABCDEF'' ! (of_char c mod 16)]
        else [c]) @ QueryEscape s"
  by (simp add: QueryEscape_def)

lemma QueryEscape_hex_lower: "QueryEscape (hex_lower bs) = hex_lower bs"
proof (induction bs)
  case Nil
  show ?case by (simp add: hex_lower_def QueryEscape_def)
next
  case (Cons b bs)
  have hl: "hex_lower (b # bs) =
      ''0123456789abcdef'' ! (unat b div 16) # ''0123456789abcdef'' ! (unat b mod 16) # hex_lower bs"
    by (simp add: hex_lower_def)
  have "unat b < 256" using unsigned_less [of b] by simp
  then have hi: "unat b div 16 < 16" by simp
  have lo: "unat b mod 16 < 16" by simp
  show ?case
    unfolding hl QueryEscape_Cons
    using hex_digit_unreserved [OF hi] hex_digit_unreserved [OF lo] Cons.IH by simp
qed

lemma Encode_magic_rnd:
  "Encode (Values_Set (Values_Set [] ''magic'' magic) ''rnd'' randStr) =
     ''magic='' @ QueryEscape magic @ ''&rnd='' @ QueryEscape randStr"
proof -
  have v: "Values_Set (Values_Set [] ''magic'' magic) ''rnd'' randStr = [(''magic'', [magic]), (''rnd'', [randStr])]"
    by simp
  have k: "sort (remdups (map fst [(''magic'', [magic]), (''rnd'', [randStr])])) = [''magic'', ''rnd'']"
    by (simp add: less_eq_char_def)
  have m: "QueryEscape ''magic'' = ''magic''" and r: "QueryEscape ''rnd'' = ''rnd''"
    by (simp_all add: QueryEscape_def shouldEscape_def is_alnum_def less_eq_char_def)
  show ?thesis
    unfolding v Encode_def k by (simp add: m r)
qed
















subsection \<open>The MD5 digest of the documented password\<close>

lemma chunks_numeral:
  "chunks (numeral v) k xs = take k xs # chunks (pred_numeral v) k (drop k xs)"
  by (simp add: numeral_eq_Suc)

lemma chunks_one: "chunks 1 k xs = [take k xs]"
  by (simp add: One_nat_def)

lemma replicate_numeral: "replicate (numeral v) x = x # replicate (pred_numeral v) x"
  by (simp add: numeral_eq_Suc)

lemma md5_pad_vector:
  "md5_pad (bytes_of ([CHR 0x0D, CHR 0x0A] @ ''6378'')) =
     [0x0D, 0x0A, 0x36, 0x33, 0x37, 0x38, 0x80] @ replicate 49 0 @ [0x30] @ replicate 7 0"
  by (simp add: md5_pad_def bytes_of_def upt_rec drop_bit_eq_div replicate_numeral)

lemma md5_words_vector:
  "map le_word (chunks 16 4
     ([0x0D, 0x0A, 0x36, 0x33, 0x37, 0x38, 0x80] @ replicate 49 0 @ [0x30] @ replicate 7 0)) =
     [0x33360a0d, 0x00803837] @ replicate 12 0 @ [0x30, 0]"
  by (simp add: chunks_numeral chunks_one le_word_def replicate_numeral)

lemma foldl_upt_step:
  assumes "foldl f s [0..<n] = a" and "f a n = b" and "Suc n = m"
  shows "foldl f s [0..<m] = b"
  using assms by auto

lemma md5_block_vector:
  "md5_block (0x67452301, 0xefcdab89, 0x98badcfe, 0x10325476)
     ([0x33360a0d, 0x00803837] @ replicate 12 0 @ [0x30, 0]) =
     (0xd1783299, 0x8a375c92, 0xe66f4ab9, 0x606cea64)"
proof -
  define M :: "u32 list" where "M = [0x33360a0d, 0x00803837] @ replicate 12 0 @ [0x30, 0]"
  define F where "F = (\<lambda>s i. md5_step M i s)"
  define S where "S = (0x67452301 :: u32, 0xefcdab89 :: u32, 0x98badcfe :: u32, 0x10325476 :: u32)"
  note step_defs = F_def md5_step_def md5_table_def md5_shifts_def rotl32_def M_def replicate_numeral
  have r0: "foldl F S [0..<0] = (0x67452301, 0xefcdab89, 0x98badcfe, 0x10325476)"
    by (simp add: S_def)
  have r1: "foldl F S [0..<1] = (0x10325476, 0x4024ed8e, 0xefcdab89, 0x98badcfe)"
    by (rule foldl_upt_step [OF r0]) (simp_all add: step_defs)
  have r2: "foldl F S [0..<2] = (0x98badcfe, 0xd004aaaf, 0x4024ed8e, 0xefcdab89)"
    by (rule foldl_upt_step [OF r1]) (simp_all add: step_defs)
  have r3: "foldl F S [0..<3] = (0xefcdab89, 0xbed30400, 0xd004aaaf, 0x4024ed8e)"
    by (rule foldl_upt_step [OF r2]) (simp_all add: step_defs)
  have r4: "foldl F S [0..<4] = (0x4024ed8e, 0xc0337019, 0xbed30400, 0xd004aaaf)"
    by (rule foldl_upt_step [OF r3]) (simp_all add: step_defs)
  have r5: "foldl F S [0..<5] = (0xd004aaaf, 0x9c7761fb, 0xc0337019, 0xbed30400)"
    by (rule foldl_upt_step [OF r4]) (simp_all add: step_defs)
  have r6: "foldl F S [0..<6] = (0xbed30400, 0x99c68d9e, 0x9c7761fb, 0xc0337019)"
    by (rule foldl_upt_step [OF r5]) (simp_all add: step_defs)
  have r7: "foldl F S [0..<7] = (0xc0337019, 0x11230c93, 0x99c68d9e, 0x9c7761fb)"
    by (rule foldl_upt_step [OF r6]) (simp_all add: step_defs)
  have r8: "foldl F S [0..<8] = (0x9c7761fb, 0xd639c0af, 0x11230c93, 0x99c68d9e)"
    by (rule foldl_upt_step [OF r7]) (simp_all add: step_defs)
  have r9: "foldl F S [0..<9] = (0x99c68d9e, 0xc5bdf3be, 0xd639c0af, 0x11230c93)"
    by (rule foldl_upt_step [OF r8]) (simp_all add: step_defs)
  have r10: "foldl F S [0..<10] = (0x11230c93, 0x3addc352, 0xc5bdf3be, 0xd639c0af)"
    by (rule foldl_upt_step [OF r9]) (simp_all add: step_defs)
  have r11: "foldl F S [0..<11] = (0xd639c0af, 0x92e56f12, 0x3addc352, 0xc5bdf3be)"
    by (rule foldl_upt_step [OF r10]) (simp_all add: step_defs)
  have r12: "foldl F S [0..<12] = (0xc5bdf3be, 0x9dd34c2d, 0x92e56f12, 0x3addc352)"
    by (rule foldl_upt_step [OF r11]) (simp_all add: step_defs)
  have r13: "foldl F S [0..<13] = (0x3addc352, 0xabbd659f, 0x9dd34c2d, 0x92e56f12)"
    by (rule foldl_upt_step [OF r12]) (simp_all add: step_defs)
  have r14: "foldl F S [0..<14] = (0x92e56f12, 0x23ec92c3, 0xabbd659f, 0x9dd34c2d)"
    by (rule foldl_upt_step [OF r13]) (simp_all add: step_defs)
  have r15: "foldl F S [0..<15] = (0x9dd34c2d, 0x22ec84fe, 0x23ec92c3, 0xabbd659f)"
    by (rule foldl_upt_step [OF r14]) (simp_all add: step_defs)
  have r16: "foldl F S [0..<16] = (0xabbd659f, 0xa751664b, 0x22ec84fe, 0x23ec92c3)"
    by (rule foldl_upt_step [OF r15]) (simp_all add: step_defs)
  have r17: "foldl F S [0..<17] = (0x23ec92c3, 0x5aca9d43, 0xa751664b, 0x22ec84fe)"
    by (rule foldl_upt_step [OF r16]) (simp_all add: step_defs)
  have r18: "foldl F S [0..<18] = (0x22ec84fe, 0x69232a1b, 0x5aca9d43, 0xa751664b)"
    by (rule foldl_upt_step [OF r17]) (simp_all add: step_defs)
  have r19: "foldl F S [0..<19] = (0xa751664b, 0x0fb9dad0, 0x69232a1b, 0x5aca9d43)"
    by (rule foldl_upt_step [OF r18]) (simp_all add: step_defs)
  have r20: "foldl F S [0..<20] = (0x5aca9d43, 0x3568d94f, 0x0fb9dad0, 0x69232a1b)"
    by (rule foldl_upt_step [OF r19]) (simp_all add: step_defs)
  have r21: "foldl F S [0..<21] = (0x69232a1b, 0x4bb9a6ba, 0x3568d94f, 0x0fb9dad0)"
    by (rule foldl_upt_step [OF r20]) (simp_all add: step_defs)
  have r22: "foldl F S [0..<22] = (0x0fb9dad0, 0x0d3dc208, 0x4bb9a6ba, 0x3568d94f)"
    by (rule foldl_upt_step [OF r21]) (simp_all add: step_defs)
  have r23: "foldl F S [0..<23] = (0x3568d94f, 0x7740100d, 0x0d3dc208, 0x4bb9a6ba)"
    by (rule foldl_upt_step [OF r22]) (simp_all add: step_defs)
  have r24: "foldl F S [0..<24] = (0x4bb9a6ba, 0xc936541e, 0x7740100d, 0x0d3dc208)"
    by (rule foldl_upt_step [OF r23]) (simp_all add: step_defs)
  have r25: "foldl F S [0..<25] = (0x0d3dc208, 0xeb2ee9db, 0xc936541e, 0x7740100d)"
    by (rule foldl_upt_step [OF r24]) (simp_all add: step_defs)
  have r26: "foldl F S [0..<26] = (0x7740100d, 0x414b3d52, 0xeb2ee9db, 0xc936541e)"
    by (rule foldl_upt_step [OF r25]) (simp_all add: step_defs)
  have r27: "foldl F S [0..<27] = (0xc936541e, 0x38253119, 0x414b3d52, 0xeb2ee9db)"
    by (rule foldl_upt_step [OF r26]) (simp_all add: step_defs)
  have r28: "foldl F S [0..<28] = (0xeb2ee9db, 0x1a68a072, 0x38253119, 0x414b3d52)"
    by (rule foldl_upt_step [OF r27]) (simp_all add: step_defs)
  have r29: "foldl F S [0..<29] = (0x414b3d52, 0xca4707eb, 0x1a68a072, 0x38253119)"
    by (rule foldl_upt_step [OF r28]) (simp_all add: step_defs)
  have r30: "foldl F S [0..<30] = (0x38253119, 0xdb0c727c, 0xca4707eb, 0x1a68a072)"
    by (rule foldl_upt_step [OF r29]) (simp_all add: step_defs)
  have r31: "foldl F S [0..<31] = (0x1a68a072, 0xb20750e4, 0xdb0c727c, 0xca4707eb)"
    by (rule foldl_upt_step [OF r30]) (simp_all add: step_defs)
  have r32: "foldl F S [0..<32] = (0xca4707eb, 0x910afb09, 0xb20750e4, 0xdb0c727c)"
    by (rule foldl_upt_step [OF r31]) (simp_all add: step_defs)
  have r33: "foldl F S [0..<33] = (0xdb0c727c, 0xb53ca6f5, 0x910afb09, 0xb20750e4)"
    by (rule foldl_upt_step [OF r32]) (simp_all add: step_defs)
  have r34: "foldl F S [0..<34] = (0xb20750e4, 0x30ed56ba, 0xb53ca6f5, 0x910afb09)"
    by (rule foldl_upt_step [OF r33]) (simp_all add: step_defs)
  have r35: "foldl F S [0..<35] = (0x910afb09, 0xee398b39, 0x30ed56ba, 0xb53ca6f5)"
    by (rule foldl_upt_step [OF r34]) (simp_all add: step_defs)
  have r36: "foldl F S [0..<36] = (0xb53ca6f5, 0x4c36f790, 0xee398b39, 0x30ed56ba)"
    by (rule foldl_upt_step [OF r35]) (simp_all add: step_defs)
  have r37: "foldl F S [0..<37] = (0x30ed56ba, 0x22162fce, 0x4c36f790, 0xee398b39)"
    by (rule foldl_upt_step [OF r36]) (simp_all add: step_defs)
  have r38: "foldl F S [0..<38] = (0xee398b39, 0x4de487b5, 0x22162fce, 0x4c36f790)"
    by (rule foldl_upt_step [OF r37]) (simp_all add: step_defs)
  have r39: "foldl F S [0..<39] = (0x4c36f790, 0x8468906e, 0x4de487b5, 0x22162fce)"
    by (rule foldl_upt_step [OF r38]) (simp_all add: step_defs)
  have r40: "foldl F S [0..<40] = (0x22162fce, 0x8f63d8e4, 0x8468906e, 0x4de487b5)"
    by (rule foldl_upt_step [OF r39]) (simp_all add: step_defs)
  have r41: "foldl F S [0..<41] = (0x4de487b5, 0xa97bb61d, 0x8f63d8e4, 0x8468906e)"
    by (rule foldl_upt_step [OF r40]) (simp_all add: step_defs)
  have r42: "foldl F S [0..<42] = (0x8468906e, 0x0f3e4e8e, 0xa97bb61d, 0x8f63d8e4)"
    by (rule foldl_upt_step [OF r41]) (simp_all add: step_defs)
  have r43: "foldl F S [0..<43] = (0x8f63d8e4, 0xf0a8d10b, 0x0f3e4e8e, 0xa97bb61d)"
    by (rule foldl_upt_step [OF r42]) (simp_all add: step_defs)
  have r44: "foldl F S [0..<44] = (0xa97bb61d, 0xb19e3d9a, 0xf0a8d10b, 0x0f3e4e8e)"
    by (rule foldl_upt_step [OF r43]) (simp_all add: step_defs)
  have r45: "foldl F S [0..<45] = (0x0f3e4e8e, 0xc730c4f7, 0xb19e3d9a, 0xf0a8d10b)"
    by (rule foldl_upt_step [OF r44]) (simp_all add: step_defs)
  have r46: "foldl F S [0..<46] = (0xf0a8d10b, 0xc7b790d8, 0xc730c4f7, 0xb19e3d9a)"
    by (rule foldl_upt_step [OF r45]) (simp_all add: step_defs)
  have r47: "foldl F S [0..<47] = (0xb19e3d9a, 0x7f70523c, 0xc7b790d8, 0xc730c4f7)"
    by (rule foldl_upt_step [OF r46]) (simp_all add: step_defs)
  have r48: "foldl F S [0..<48] = (0xc730c4f7, 0x88eb7309, 0x7f70523c, 0xc7b790d8)"
    by (rule foldl_upt_step [OF r47]) (simp_all add: step_defs)
  have r49: "foldl F S [0..<49] = (0xc7b790d8, 0x13b309f6, 0x88eb7309, 0x7f70523c)"
    by (rule foldl_upt_step [OF r48]) (simp_all add: step_defs)
  have r50: "foldl F S [0..<50] = (0x7f70523c, 0xf170be8e, 0x13b309f6, 0x88eb7309)"
    by (rule foldl_upt_step [OF r49]) (simp_all add: step_defs)
  have r51: "foldl F S [0..<51] = (0x88eb7309, 0x07fe4674, 0xf170be8e, 0x13b309f6)"
    by (rule foldl_upt_step [OF r50]) (simp_all add: step_defs)
  have r52: "foldl F S [0..<52] = (0x13b309f6, 0x8eb2c81f, 0x07fe4674, 0xf170be8e)"
    by (rule foldl_upt_step [OF r51]) (simp_all add: step_defs)
  have r53: "foldl F S [0..<53] = (0xf170be8e, 0x22af791f, 0x8eb2c81f, 0x07fe4674)"
    by (rule foldl_upt_step [OF r52]) (simp_all add: step_defs)
  have r54: "foldl F S [0..<54] = (0x07fe4674, 0x8da1fcf1, 0x22af791f, 0x8eb2c81f)"
    by (rule foldl_upt_step [OF r53]) (simp_all add: step_defs)
  have r55: "foldl F S [0..<55] = (0x8eb2c81f, 0xee91f089, 0x8da1fcf1, 0x22af791f)"
    by (rule foldl_upt_step [OF r54]) (simp_all add: step_defs)
  have r56: "foldl F S [0..<56] = (0x22af791f, 0xf682d576, 0xee91f089, 0x8da1fcf1)"
    by (rule foldl_upt_step [OF r55]) (simp_all add: step_defs)
  have r57: "foldl F S [0..<57] = (0x8da1fcf1, 0xa04aaee0, 0xf682d576, 0xee91f089)"
    by (rule foldl_upt_step [OF r56]) (simp_all add: step_defs)
  have r58: "foldl F S [0..<58] = (0xee91f089, 0x8dc3f62e, 0xa04aaee0, 0xf682d576)"
    by (rule foldl_upt_step [OF r57]) (simp_all add: step_defs)
  have r59: "foldl F S [0..<59] = (0xf682d576, 0xcfba55d2, 0x8dc3f62e, 0xa04aaee0)"
    by (rule foldl_upt_step [OF r58]) (simp_all add: step_defs)
  have r60: "foldl F S [0..<60] = (0xa04aaee0, 0x30cd36c3, 0xcfba55d2, 0x8dc3f62e)"
    by (rule foldl_upt_step [OF r59]) (simp_all add: step_defs)
  have r61: "foldl F S [0..<61] = (0x8dc3f62e, 0x6a330f98, 0x30cd36c3, 0xcfba55d2)"
    by (rule foldl_upt_step [OF r60]) (simp_all add: step_defs)
  have r62: "foldl F S [0..<62] = (0xcfba55d2, 0x503a95ee, 0x6a330f98, 0x30cd36c3)"
    by (rule foldl_upt_step [OF r61]) (simp_all add: step_defs)
  have r63: "foldl F S [0..<63] = (0x30cd36c3, 0x4db46dbb, 0x503a95ee, 0x6a330f98)"
    by (rule foldl_upt_step [OF r62]) (simp_all add: step_defs)
  have r64: "foldl F S [0..<64] = (0x6a330f98, 0x9a69b109, 0x4db46dbb, 0x503a95ee)"
    by (rule foldl_upt_step [OF r63]) (simp_all add: step_defs)
  from r64 show ?thesis
    unfolding md5_block_def M_def [symmetric] F_def [symmetric] S_def [symmetric]
    by (simp add: S_def)
qed

lemma md5_Sum_vector:
  "md5_Sum (bytes_of ([CHR 0x0D, CHR 0x0A] @ ''6378'')) =
     [0x99, 0x32, 0x78, 0xd1, 0x92, 0x5c, 0x37, 0x8a, 0xb9, 0x4a, 0x6f, 0xe6, 0x64, 0xea, 0x6c, 0x60]"
proof -
  define P :: "byte list" where
    "P = [0x0D, 0x0A, 0x36, 0x33, 0x37, 0x38, 0x80] @ replicate 49 0 @ [0x30] @ replicate 7 0"
  define W :: "u32 list" where "W = [0x33360a0d, 0x00803837] @ replicate 12 0 @ [0x30, 0]"
  have pad: "md5_pad (bytes_of ([CHR 0x0D, CHR 0x0A] @ ''6378'')) = P"
    unfolding P_def by (rule md5_pad_vector)
  have len: "length P div 64 = 1"
    by (simp add: P_def)
  have blocks: "chunks 1 64 P = [P]"
    by (simp add: chunks_one P_def)
  have w: "map le_word (chunks 16 4 P) = W"
    unfolding P_def W_def by (rule md5_words_vector)
  have blk: "md5_block (0x67452301, 0xefcdab89, 0x98badcfe, 0x10325476) W =
      (0xd1783299, 0x8a375c92, 0xe66f4ab9, 0x606cea64)"
    unfolding W_def by (rule md5_block_vector)
  show ?thesis
    unfolding md5_Sum_def pad Let_def len blocks
    by (simp add: w blk le_bytes_def upt_rec)
qed

lemma md5_vector:
  "hex_lower (md5_Sum (bytes_of ([CHR 0x0D, CHR 0x0A] @ ''6378''))) = ''993278d1925c378ab94a6fe664ea6c60''"
  unfolding md5_Sum_vector by (simp add: hex_lower_def)

subsection \<open>Octets\<close>

lemma octet_bits:
  fixes a b :: int
  assumes "0 \<le> a" "a < 256" "0 \<le> b" "b < 256"
  shows "(a + b * 256) AND 255 = a" and "drop_bit 8 (a + b * 256) AND 255 = b"
proof -
  have m: "x AND 255 = x mod 256" for x :: int
    using take_bit_eq_mask [of 8 x] by (simp add: take_bit_eq_mod mask_eq_exp_minus_1)
  show "(a + b * 256) AND 255 = a" using assms by (simp add: m)
  show "drop_bit 8 (a + b * 256) AND 255 = b" using assms by (simp add: m drop_bit_eq_div)
qed



lemma Itoa_no_dot: "0 \<le> i \<Longrightarrow> CHR ''.'' \<notin> set (Itoa i)"
  by (simp add: Itoa_def digits10_no_dot)

lemma Split_dotted_quad:
  assumes "0 \<le> a" "0 \<le> b" "0 \<le> c" "0 \<le> d"
  shows "Split (dotted_quad a b c d) CHR ''.'' = [Itoa a, Itoa b, Itoa c, Itoa d]"
proof -
  have "Split (Itoa a @ CHR ''.'' # Itoa b @ CHR ''.'' # Itoa c @ CHR ''.'' # Itoa d) CHR ''.''
        = [Itoa a, Itoa b, Itoa c, Itoa d]"
    using assms by (simp add: Split_append_sep Split_no_sep Itoa_no_dot)
  then show ?thesis by (simp add: dotted_quad_def)
qed

lemma wrap64_id: "- (2 ^ 63) \<le> x \<Longrightarrow> x < 2 ^ 63 \<Longrightarrow> wrap64 x = x"
  by (simp add: wrap64_def)

lemma pack_octets:
  fixes a b :: int
  assumes "0 \<le> a" "a \<le> 255" "0 \<le> b" "b \<le> 255"
  shows "int_add a (int_shl b 8) = a + b * 256"
proof -
  have "int_shl b 8 = b * 256" using assms by (simp add: int_shl_def wrap64_id)
  then show ?thesis using assms by (simp add: int_add_def wrap64_id)
qed

subsection \<open>Sections of a snapshot\<close>

lemma collect_items_lookup:
  "collect_items m items k = (case section_value items k of Some v \<Rightarrow> Some v | None \<Rightarrow> m k)"
proof (induction items arbitrary: m)
  case Nil
  show ?case by (simp add: section_value_def)
next
  case (Cons it its)
  have sv: "section_value (it # its) k =
      (case section_value its k of Some v \<Rightarrow> Some v
       | None \<Rightarrow> if k = ID it then Some (Value it) else None)"
    by (simp add: section_value_def map_add_def split: option.splits)
  show ?case
    by (simp add: Cons.IH sv split: option.splits)
qed

lemma ParseXMLData_lookup:
  assumes "unmarshal xmlStr = Inr decoded"
  shows "\<exists>d. ParseXMLData unmarshal xmlStr = Inr d \<and>
           (\<forall>k. Items d k =
              (case section_value (EnumR decoded) k of Some v \<Rightarrow> Some v | None \<Rightarrow>
               case section_value (FloatR decoded) k of Some v \<Rightarrow> Some v | None \<Rightarrow>
               case section_value (StringR decoded) k of Some v \<Rightarrow> Some v | None \<Rightarrow>
               section_value (IntegerR decoded) k))"
  using assms
  by (simp add: ParseXMLData_def collect_items_lookup split: option.splits)

lemma temperature_of_first_find:
  "temperature_of_first unrepresentable parseFloat (Items d) ids =
     (case find (readable parseFloat d) ids of
        Some k \<Rightarrow> Some (decodeTemperature unrepresentable (the (parseFloat (the (Items d k)))))
      | None \<Rightarrow> None)"
  by (induction ids) (auto simp: readable_def split: option.splits)

subsection \<open>The login response\<close>

lemma Login_sessionID_iff:
  "Login_sessionID body = Some t \<longleftrightarrow>
     (\<exists>rootStart gt endTag.
        first_occurrence (TrimSpace body) ''<root'' rootStart
      \<and> first_occurrence (drop rootStart (TrimSpace body)) ''>'' gt
      \<and> first_occurrence (TrimSpace body) ''</root>'' endTag
      \<and> rootStart + gt + 1 < endTag
      \<and> t = TrimSpace (take (endTag - (rootStart + gt + 1)) (drop (rootStart + gt + 1) (TrimSpace body)))
      \<and> t \<noteq> [] \<and> t \<noteq> ''0'' \<and> t \<noteq> ''denied'' \<and> int_literal t)"
  (is "?L \<longleftrightarrow> ?R")
proof
  assume ?L
  then show ?R
    unfolding Login_sessionID_def Let_def
    by (auto simp: Index_Some_iff [symmetric] Atoi_ok_iff [symmetric] split: option.splits if_splits)
next
  assume ?R
  then obtain rootStart gt endTag where
    "Index (TrimSpace body) ''<root'' = Some rootStart"
    "Index (drop rootStart (TrimSpace body)) ''>'' = Some gt"
    "Index (TrimSpace body) ''</root>'' = Some endTag"
    "rootStart + gt + 1 < endTag"
    "t = TrimSpace (take (endTag - (rootStart + gt + 1)) (drop (rootStart + gt + 1) (TrimSpace body)))"
    "t \<noteq> []" "t \<noteq> ''0''" "t \<noteq> ''denied''" "snd (Atoi t) = None"
    unfolding Index_Some_iff Atoi_ok_iff by blast
  then show ?L
    unfolding Login_sessionID_def Let_def by simp
qed

lemma Login_URL_eq:
  "Login_URL wc randStr password =
     baseURL wc @ ''/config/login.cgi?magic='' @
       hex_lower (md5_Sum (0x0D # 0x0A # bytes_of password)) @ ''&rnd='' @ QueryEscape randStr"
  unfolding Login_URL_def Let_def Encode_magic_rnd QueryEscape_hex_lower
  by (simp add: bytes_of_def)

section \<open>Value codec: temperature\<close>

text \<open>
  C1. For every raw register value from 0 to 65535, temperature decoding returns
  (raw - 65536) / 10 when raw is at least 65036, raw / 10 when raw lies between 1 and 1300,
  and exactly 0 otherwise (raw = 0, or raw between 1301 and 65035). The boundary table:
  1 gives 0.1, 1300 gives 130.0, 1301 gives 0.0, 0 gives 0.0, 65036 gives -50.0,
  65535 gives -0.1 and 65526 gives -1.0.
\<close>

theorem decodeTemperature_table:
  "(\<forall>raw::int. 0 \<le> raw \<and> raw \<le> 65535 \<longrightarrow>
      decodeTemperature unrepresentable (Finite (real_of_int raw)) =
        (if raw \<ge> 65036 then (real_of_int raw - 65536) / 10
         else if 1 \<le> raw \<and> raw \<le> 1300 then real_of_int raw / 10
         else 0)
      \<and> ((raw = 0 \<or> (1301 \<le> raw \<and> raw \<le> 65035)) \<longrightarrow>
            decodeTemperature unrepresentable (Finite (real_of_int raw)) = 0))
   \<and> decodeTemperature unrepresentable (Finite 1) = 1 / 10
   \<and> decodeTemperature unrepresentable (Finite 1300) = 130
   \<and> decodeTemperature unrepresentable (Finite 1301) = 0
   \<and> decodeTemperature unrepresentable (Finite 0) = 0
   \<and> decodeTemperature unrepresentable (Finite 65036) = - 50
   \<and> decodeTemperature unrepresentable (Finite 65535) = - (1 / 10)
   \<and> decodeTemperature unrepresentable (Finite 65526) = - 1"
proof -
  have gen: "decodeTemperature unrepresentable (Finite (real_of_int raw)) =
        (if raw \<ge> 65036 then (real_of_int raw - 65536) / 10
         else if 1 \<le> raw \<and> raw \<le> 1300 then real_of_int raw / 10
         else 0)" if "0 \<le> raw" "raw \<le> 65535" for raw :: int
    using that by (simp add: decodeTemperature_def float_to_int_of_int Let_def)
  have c1: "decodeTemperature unrepresentable (Finite 1) = 1 / 10" using gen [of 1] by simp
  have c2: "decodeTemperature unrepresentable (Finite 1300) = 130" using gen [of 1300] by simp
  have c3: "decodeTemperature unrepresentable (Finite 1301) = 0" using gen [of 1301] by simp
  have c4: "decodeTemperature unrepresentable (Finite 0) = 0" using gen [of 0] by simp
  have c5: "decodeTemperature unrepresentable (Finite 65036) = - 50" using gen [of 65036] by simp
  have c6: "decodeTemperature unrepresentable (Finite 65535) = - (1 / 10)" using gen [of 65535] by simp
  have c7: "decodeTemperature unrepresentable (Finite 65526) = - 1" using gen [of 65526] by simp
  have all: "\<forall>raw::int. 0 \<le> raw \<and> raw \<le> 65535 \<longrightarrow>
      decodeTemperature unrepresentable (Finite (real_of_int raw)) =
        (if raw \<ge> 65036 then (real_of_int raw - 65536) / 10
         else if 1 \<le> raw \<and> raw \<le> 1300 then real_of_int raw / 10
         else 0)
      \<and> ((raw = 0 \<or> (1301 \<le> raw \<and> raw \<le> 65035)) \<longrightarrow>
            decodeTemperature unrepresentable (Finite (real_of_int raw)) = 0)"
    using gen by auto
  from all c1 c2 c3 c4 c5 c6 c7 show ?thesis by blast
qed

text \<open>
  The indoor reading 201 of the sample document lies in the range and decodes to 20.1.
\<close>

theorem decodeTemperature_table_witness:
  "(0::int) \<le> 201 \<and> (201::int) \<le> 65535
   \<and> decodeTemperature unrepresentable_amd64 (Finite (real_of_int 201)) = 201 / 10"
proof -
  have "\<forall>raw::int. 0 \<le> raw \<and> raw \<le> 65535 \<longrightarrow>
      decodeTemperature unrepresentable_amd64 (Finite (real_of_int raw)) =
        (if raw \<ge> 65036 then (real_of_int raw - 65536) / 10
         else if 1 \<le> raw \<and> raw \<le> 1300 then real_of_int raw / 10
         else 0)
      \<and> ((raw = 0 \<or> (1301 \<le> raw \<and> raw \<le> 65035)) \<longrightarrow>
            decodeTemperature unrepresentable_amd64 (Finite (real_of_int raw)) = 0)"
    using decodeTemperature_table [of unrepresentable_amd64] by blast
  from this [THEN spec, of 201] show ?thesis by simp
qed

section \<open>Session client: authentication\<close>

text \<open>
  C2. For every login response body, with \<open>r\<close> the body trimmed of surrounding
  white space: \<open>Login\<close> succeeds exactly when \<open>r\<close> contains \<open><root\<close>, a \<open>>\<close> at or after
  its first occurrence, and the first \<open></root>\<close> of \<open>r\<close> starts strictly after that \<open>>\<close>,
  and the text between the two, trimmed, is non-empty, not \<open>0\<close>, not \<open>denied\<close>, and an
  integer literal that \<open>strconv.Atoi\<close> accepts (an optional sign and decimal digits of a
  value in the 64-bit range). It then returns that text and stores it as the session
  identifier. In every other case, a body \<open>denied\<close> and a body with no \<open><root\<close> among
  them, it fails with the authentication error and leaves the client as it was. The
  body \<open><?xml version="1.0"?><root lng="0">15736</root>\<close> yields \<open>15736\<close>.
\<close>

theorem Login_token_extraction:
  "(\<forall>body t. Login_sessionID body = Some t \<longleftrightarrow>
      (\<exists>rootStart gt endTag.
          first_occurrence (TrimSpace body) ''<root'' rootStart
        \<and> first_occurrence (drop rootStart (TrimSpace body)) ''>'' gt
        \<and> first_occurrence (TrimSpace body) ''</root>'' endTag
        \<and> rootStart + gt + 1 < endTag
        \<and> t = TrimSpace (take (endTag - (rootStart + gt + 1))
                            (drop (rootStart + gt + 1) (TrimSpace body)))
        \<and> t \<noteq> [] \<and> t \<noteq> ''0'' \<and> t \<noteq> ''denied'' \<and> int_literal t))
   \<and> (\<forall>dev randStr wc password resp. dev (Login_URL wc randStr password) = Inr resp \<longrightarrow>
        Login dev randStr wc password =
          (case Login_sessionID (Body resp) of
             Some t \<Rightarrow> (Inr t, wc\<lparr>auth := t\<rparr>)
           | None \<Rightarrow> (Inl AuthenticationFailed, wc)))
   \<and> Login_sessionID ''<?xml version=\"1.0\"?><root lng=\"0\">15736</root>'' = Some ''15736''
   \<and> Login_sessionID ''<?xml version=\"1.0\" encoding=\"UTF-8\"?><root lng=\"0\">denied</root>'' = None
   \<and> Login_sessionID ''denied'' = None
   \<and> Login_sessionID ''<?xml version=\"1.0\" encoding=\"UTF-8\"?>'' = None"
proof -
  have a: "\<forall>body t. Login_sessionID body = Some t \<longleftrightarrow>
      (\<exists>rootStart gt endTag.
          first_occurrence (TrimSpace body) ''<root'' rootStart
        \<and> first_occurrence (drop rootStart (TrimSpace body)) ''>'' gt
        \<and> first_occurrence (TrimSpace body) ''</root>'' endTag
        \<and> rootStart + gt + 1 < endTag
        \<and> t = TrimSpace (take (endTag - (rootStart + gt + 1))
                            (drop (rootStart + gt + 1) (TrimSpace body)))
        \<and> t \<noteq> [] \<and> t \<noteq> ''0'' \<and> t \<noteq> ''denied'' \<and> int_literal t)"
    using Login_sessionID_iff by blast
  have b: "\<forall>dev randStr wc password resp. dev (Login_URL wc randStr password) = Inr resp \<longrightarrow>
        Login dev randStr wc password =
          (case Login_sessionID (Body resp) of
             Some t \<Rightarrow> (Inr t, wc\<lparr>auth := t\<rparr>)
           | None \<Rightarrow> (Inl AuthenticationFailed, wc))"
    by (simp add: Login_def)
  have c: "Login_sessionID ''<?xml version=\"1.0\"?><root lng=\"0\">15736</root>'' = Some ''15736''"
    by (simp add: Login_sessionID_def str_eval)
  have d: "Login_sessionID ''<?xml version=\"1.0\" encoding=\"UTF-8\"?><root lng=\"0\">denied</root>'' = None"
    by (simp add: Login_sessionID_def str_eval)
  have e: "Login_sessionID ''denied'' = None"
    by (simp add: Login_sessionID_def str_eval)
  have f: "Login_sessionID ''<?xml version=\"1.0\" encoding=\"UTF-8\"?>'' = None"
    by (simp add: Login_sessionID_def str_eval)
  from a b c d e f show ?thesis by blast
qed

text \<open>
  A device that replies with the documented response logs the client in and the client
  keeps the identifier; one that replies \<open>denied\<close> leaves a client with an earlier session
  unchanged.
\<close>

theorem Login_token_extraction_witness:
  "Login (device_replying ''<?xml version=\"1.0\"?><root lng=\"0\">15736</root>'') ''123''
      \<lparr>baseURL = ''http://192.168.68.106'', auth = []\<rparr> ''6378''
     = (Inr ''15736'', \<lparr>baseURL = ''http://192.168.68.106'', auth = ''15736''\<rparr>)
   \<and> Login (device_replying ''<?xml version=\"1.0\" encoding=\"UTF-8\"?><root lng=\"0\">denied</root>'') ''123''
      \<lparr>baseURL = ''http://192.168.68.106'', auth = ''777''\<rparr> ''wrongpassword''
     = (Inl AuthenticationFailed, \<lparr>baseURL = ''http://192.168.68.106'', auth = ''777''\<rparr>)
   \<and> (\<exists>rootStart gt endTag.
          first_occurrence (TrimSpace ''<?xml version=\"1.0\"?><root lng=\"0\">15736</root>'') ''<root'' rootStart
        \<and> first_occurrence
              (drop rootStart (TrimSpace ''<?xml version=\"1.0\"?><root lng=\"0\">15736</root>'')) ''>'' gt
        \<and> first_occurrence (TrimSpace ''<?xml version=\"1.0\"?><root lng=\"0\">15736</root>'') ''</root>'' endTag
        \<and> rootStart + gt + 1 < endTag \<and> int_literal ''15736'')"
proof -
  let ?ok = "''<?xml version=\"1.0\"?><root lng=\"0\">15736</root>''"
  let ?no = "''<?xml version=\"1.0\" encoding=\"UTF-8\"?><root lng=\"0\">denied</root>''"
  let ?wc = "\<lparr>baseURL = ''http://192.168.68.106'', auth = []\<rparr>"
  let ?wc' = "\<lparr>baseURL = ''http://192.168.68.106'', auth = ''777''\<rparr>"
  note t = Login_token_extraction
  from t have step: "\<And>dev randStr wc password resp. dev (Login_URL wc randStr password) = Inr resp \<Longrightarrow>
        Login dev randStr wc password =
          (case Login_sessionID (Body resp) of
             Some t \<Rightarrow> (Inr t, wc\<lparr>auth := t\<rparr>)
           | None \<Rightarrow> (Inl AuthenticationFailed, wc))"
    by blast
  from t have ok: "Login_sessionID ?ok = Some ''15736''" by blast
  from t have no: "Login_sessionID ?no = None" by blast
  from t have chr: "\<And>body t. Login_sessionID body = Some t \<Longrightarrow>
      (\<exists>rootStart gt endTag.
          first_occurrence (TrimSpace body) ''<root'' rootStart
        \<and> first_occurrence (drop rootStart (TrimSpace body)) ''>'' gt
        \<and> first_occurrence (TrimSpace body) ''</root>'' endTag
        \<and> rootStart + gt + 1 < endTag
        \<and> t = TrimSpace (take (endTag - (rootStart + gt + 1))
                            (drop (rootStart + gt + 1) (TrimSpace body)))
        \<and> t \<noteq> [] \<and> t \<noteq> ''0'' \<and> t \<noteq> ''denied'' \<and> int_literal t)"
    by blast
  have r1: "device_replying ?ok (Login_URL ?wc ''123'' ''6378'') = Inr \<lparr>StatusCode = 200, Body = ?ok\<rparr>"
    by (simp add: device_replying_def)
  have r2: "device_replying ?no (Login_URL ?wc' ''123'' ''wrongpassword'') = Inr \<lparr>StatusCode = 200, Body = ?no\<rparr>"
    by (simp add: device_replying_def)
  from step [where dev = "device_replying ?ok" and wc = ?wc and randStr = "''123''" and password = "''6378''"
      and resp = "\<lparr>StatusCode = 200, Body = ?ok\<rparr>"] r1 ok have 1: "Login (device_replying ?ok) ''123'' ?wc ''6378'' = (Inr ''15736'', ?wc\<lparr>auth := ''15736''\<rparr>)"
    by simp
  from step [where dev = "device_replying ?no" and wc = ?wc' and randStr = "''123''" and password = "''wrongpassword''"
      and resp = "\<lparr>StatusCode = 200, Body = ?no\<rparr>"] r2 no have 2: "Login (device_replying ?no) ''123'' ?wc' ''wrongpassword'' = (Inl AuthenticationFailed, ?wc')"
    by simp
  from chr [OF ok] have 3: "\<exists>rootStart gt endTag.
          first_occurrence (TrimSpace ?ok) ''<root'' rootStart
        \<and> first_occurrence (drop rootStart (TrimSpace ?ok)) ''>'' gt
        \<and> first_occurrence (TrimSpace ?ok) ''</root>'' endTag
        \<and> rootStart + gt + 1 < endTag \<and> int_literal ''15736''"
    by blast
  from 1 2 3 show ?thesis by simp
qed

text \<open>
  The token need not be made of digits only, and digits only are not enough: a signed
  token is accepted and stored, and a token of twenty nines is refused, since it exceeds
  the 64-bit range.
\<close>

theorem Login_accepts_signed_token:
  "Login (device_replying ''<root lng=\"0\">-5</root>'') ''123''
      \<lparr>baseURL = ''http://192.168.68.106'', auth = []\<rparr> ''6378''
     = (Inr ''-5'', \<lparr>baseURL = ''http://192.168.68.106'', auth = ''-5''\<rparr>)
   \<and> \<not> list_all is_digit ''-5''
   \<and> Login (device_replying ''<root lng=\"0\">99999999999999999999</root>'') ''123''
      \<lparr>baseURL = ''http://192.168.68.106'', auth = []\<rparr> ''6378''
     = (Inl AuthenticationFailed, \<lparr>baseURL = ''http://192.168.68.106'', auth = []\<rparr>)
   \<and> list_all is_digit ''99999999999999999999''"
  by (simp add: Login_def device_replying_def Login_sessionID_def str_eval)

text \<open>
  C3. For every password, \<open>Login\<close> issues its one request at \<open>Login_URL\<close>, whose query
  carries as \<open>magic\<close> the lowercase hexadecimal MD5 digest of the two bytes 0x0D 0x0A
  followed by the bytes of the password (and as \<open>rnd\<close> the nonce): a transport error of
  the request at that URL is the error of \<open>Login\<close>, the body of its response decides the
  result, and the device enters the result through the answer to that request only. For
  the password \<open>6378\<close> the digest is \<open>993278d1925c378ab94a6fe664ea6c60\<close>.
\<close>

theorem Login_sends_md5_magic:
  "(\<forall>wc randStr password.
      Login_URL wc randStr password =
        baseURL wc @ ''/config/login.cgi?magic='' @
          hex_lower (md5_Sum (0x0D # 0x0A # bytes_of password)) @ ''&rnd='' @ QueryEscape randStr)
   \<and> (\<forall>dev randStr wc password e.
        dev (Login_URL wc randStr password) = Inl e \<longrightarrow>
        Login dev randStr wc password = (Inl e, wc))
   \<and> (\<forall>dev randStr wc password resp.
        dev (Login_URL wc randStr password) = Inr resp \<longrightarrow>
        Login dev randStr wc password =
          (case Login_sessionID (Body resp) of
             Some sessionID \<Rightarrow> (Inr sessionID, wc\<lparr>auth := sessionID\<rparr>)
           | None \<Rightarrow> (Inl AuthenticationFailed, wc)))
   \<and> (\<forall>dev dev' randStr wc password.
        dev (Login_URL wc randStr password) = dev' (Login_URL wc randStr password) \<longrightarrow>
        Login dev randStr wc password = Login dev' randStr wc password)
   \<and> hex_lower (md5_Sum (0x0D # 0x0A # bytes_of ''6378'')) = ''993278d1925c378ab94a6fe664ea6c60''
   \<and> Login_URL \<lparr>baseURL = ''http://192.168.68.106'', auth = []\<rparr> ''123'' ''6378'' =
       ''http://192.168.68.106/config/login.cgi?magic=993278d1925c378ab94a6fe664ea6c60&rnd=123''"
proof -
  have a: "\<forall>wc randStr password.
      Login_URL wc randStr password =
        baseURL wc @ ''/config/login.cgi?magic='' @
          hex_lower (md5_Sum (0x0D # 0x0A # bytes_of password)) @ ''&rnd='' @ QueryEscape randStr"
    using Login_URL_eq by blast
  have e: "\<forall>dev randStr wc password e.
        dev (Login_URL wc randStr password) = Inl e \<longrightarrow>
        Login dev randStr wc password = (Inl e, wc)"
    by (simp add: Login_def)
  have r: "\<forall>dev randStr wc password resp.
        dev (Login_URL wc randStr password) = Inr resp \<longrightarrow>
        Login dev randStr wc password =
          (case Login_sessionID (Body resp) of
             Some sessionID \<Rightarrow> (Inr sessionID, wc\<lparr>auth := sessionID\<rparr>)
           | None \<Rightarrow> (Inl AuthenticationFailed, wc))"
    by (simp add: Login_def)
  have b: "\<forall>dev dev' randStr wc password.
        dev (Login_URL wc randStr password) = dev' (Login_URL wc randStr password) \<longrightarrow>
        Login dev randStr wc password = Login dev' randStr wc password"
    by (simp add: Login_def)
  have bytes: "0x0D # 0x0A # bytes_of ''6378'' = bytes_of ([CHR 0x0D, CHR 0x0A] @ ''6378'')"
    by (simp add: bytes_of_def)
  have c: "hex_lower (md5_Sum (0x0D # 0x0A # bytes_of ''6378'')) = ''993278d1925c378ab94a6fe664ea6c60''"
    unfolding bytes by (rule md5_vector)
  have q: "QueryEscape ''123'' = ''123''"
    by (simp add: url_eval)
  have d: "Login_URL \<lparr>baseURL = ''http://192.168.68.106'', auth = []\<rparr> ''123'' ''6378'' =
       ''http://192.168.68.106/config/login.cgi?magic=993278d1925c378ab94a6fe664ea6c60&rnd=123''"
    unfolding Login_URL_eq c q by simp
  from a e r b c d show ?thesis by blast
qed

text \<open>
  A device that serves the login response only at the URL with the documented digest,
  as the mock server of the test suite checks it, logs the client in; one that serves it
  only at the URL with the password itself as \<open>magic\<close> is not reached.
\<close>

theorem Login_sends_md5_magic_witness:
  "Login (device_serving
            ''http://192.168.68.106/config/login.cgi?magic=993278d1925c378ab94a6fe664ea6c60&rnd=123''
            ''<?xml version=\"1.0\"?><root lng=\"0\">15736</root>'')
      ''123'' \<lparr>baseURL = ''http://192.168.68.106'', auth = []\<rparr> ''6378''
     = (Inr ''15736'', \<lparr>baseURL = ''http://192.168.68.106'', auth = ''15736''\<rparr>)
   \<and> Login (device_serving
            ''http://192.168.68.106/config/login.cgi?magic=6378&rnd=123''
            ''<?xml version=\"1.0\"?><root lng=\"0\">15736</root>'')
      ''123'' \<lparr>baseURL = ''http://192.168.68.106'', auth = []\<rparr> ''6378''
     = (Inl TransportError, \<lparr>baseURL = ''http://192.168.68.106'', auth = []\<rparr>)"
proof -
  let ?url = "''http://192.168.68.106/config/login.cgi?magic=993278d1925c378ab94a6fe664ea6c60&rnd=123''"
  let ?plain = "''http://192.168.68.106/config/login.cgi?magic=6378&rnd=123''"
  let ?body = "''<?xml version=\"1.0\"?><root lng=\"0\">15736</root>''"
  let ?wc = "\<lparr>baseURL = ''http://192.168.68.106'', auth = []\<rparr>"
  note t = Login_sends_md5_magic
  from t have u: "Login_URL ?wc ''123'' ''6378'' = ?url" by blast
  from t have answered: "\<And>dev randStr wc password resp.
        dev (Login_URL wc randStr password) = Inr resp \<Longrightarrow>
        Login dev randStr wc password =
          (case Login_sessionID (Body resp) of
             Some sessionID \<Rightarrow> (Inr sessionID, wc\<lparr>auth := sessionID\<rparr>)
           | None \<Rightarrow> (Inl AuthenticationFailed, wc))"
    by blast
  from t have unreachable: "\<And>dev randStr wc password e.
        dev (Login_URL wc randStr password) = Inl e \<Longrightarrow>
        Login dev randStr wc password = (Inl e, wc)"
    by blast
  have served: "device_serving ?url ?body (Login_URL ?wc ''123'' ''6378'')
      = Inr \<lparr>StatusCode = 200, Body = ?body\<rparr>"
    unfolding u by (simp add: device_serving_def)
  have sid: "Login_sessionID ?body = Some ''15736''"
    by (simp add: Login_sessionID_def str_eval)
  have ok: "Login (device_serving ?url ?body) ''123'' ?wc ''6378''
      = (Inr ''15736'', \<lparr>baseURL = ''http://192.168.68.106'', auth = ''15736''\<rparr>)"
    using answered [where dev = "device_serving ?url ?body" and wc = ?wc and randStr = "''123''"
        and password = "''6378''", OF served]
    by (simp add: sid)
  have missed: "device_serving ?plain ?body (Login_URL ?wc ''123'' ''6378'') = Inl TransportError"
    unfolding u by (simp add: device_serving_def)
  have bad: "Login (device_serving ?plain ?body) ''123'' ?wc ''6378'' = (Inl TransportError, ?wc)"
    using unreachable [where dev = "device_serving ?plain ?body" and wc = ?wc and randStr = "''123''"
        and password = "''6378''", OF missed] .
  from ok bad show ?thesis by simp
qed

section \<open>Snapshot parser\<close>

text \<open>
  C4. For every document the snapshot parser accepts, the four sections are merged into
  one mapping in the order integer, string, floating, enumerated, a later section
  overwriting an earlier one for a shared identifier: the snapshot gives an identifier
  the value of the last section, in that order, that has it. A document that places
  \<open>X\<close> in the integer section with value 1 and in the enumerated section with value 2
  yields a snapshot mapping \<open>X\<close> to 2.
\<close>

theorem ParseXMLData_precedence:
  "(\<forall>unmarshal xmlStr d. ParseXMLData unmarshal xmlStr = Inr d \<longrightarrow>
      (\<exists>decoded. unmarshal xmlStr = Inr decoded \<and>
         (\<forall>k. Items d k =
            (case section_value (EnumR decoded) k of Some v \<Rightarrow> Some v | None \<Rightarrow>
             case section_value (FloatR decoded) k of Some v \<Rightarrow> Some v | None \<Rightarrow>
             case section_value (StringR decoded) k of Some v \<Rightarrow> Some v | None \<Rightarrow>
             section_value (IntegerR decoded) k))))
   \<and> (\<forall>unmarshal xmlStr decoded X v1 v2.
        unmarshal xmlStr = Inr decoded \<and> section_value (IntegerR decoded) X = Some v1
          \<and> section_value (EnumR decoded) X = Some v2 \<longrightarrow>
        (\<exists>d. ParseXMLData unmarshal xmlStr = Inr d \<and> Items d X = Some v2))
   \<and> (\<exists>d. ParseXMLData xml_Unmarshal
          ''<RD5WEB><RD5><INTEGER_R><O I=\"X\" V=\"1\"/></INTEGER_R><ENUM_R><O I=\"X\" V=\"2\"/></ENUM_R></RD5></RD5WEB>''
            = Inr d \<and> Items d ''X'' = Some ''2'')"
proof (intro conjI allI impI)
  fix unmarshal :: "string \<Rightarrow> error + xml_root" and xmlStr d
  assume a: "ParseXMLData unmarshal xmlStr = Inr d"
  then obtain decoded where u: "unmarshal xmlStr = Inr decoded"
    by (cases "unmarshal xmlStr") (simp_all add: ParseXMLData_def)
  from ParseXMLData_lookup [of unmarshal xmlStr decoded] u a
  have "\<forall>k. Items d k =
            (case section_value (EnumR decoded) k of Some v \<Rightarrow> Some v | None \<Rightarrow>
             case section_value (FloatR decoded) k of Some v \<Rightarrow> Some v | None \<Rightarrow>
             case section_value (StringR decoded) k of Some v \<Rightarrow> Some v | None \<Rightarrow>
             section_value (IntegerR decoded) k)"
    by auto
  with u show "\<exists>decoded. unmarshal xmlStr = Inr decoded \<and>
         (\<forall>k. Items d k =
            (case section_value (EnumR decoded) k of Some v \<Rightarrow> Some v | None \<Rightarrow>
             case section_value (FloatR decoded) k of Some v \<Rightarrow> Some v | None \<Rightarrow>
             case section_value (StringR decoded) k of Some v \<Rightarrow> Some v | None \<Rightarrow>
             section_value (IntegerR decoded) k))"
    by blast
next
  fix unmarshal :: "string \<Rightarrow> error + xml_root" and xmlStr decoded X v1 v2
  assume a: "unmarshal xmlStr = Inr decoded \<and> section_value (IntegerR decoded) X = Some v1
          \<and> section_value (EnumR decoded) X = Some v2"
  then have u: "unmarshal xmlStr = Inr decoded" by simp
  from ParseXMLData_lookup [of unmarshal xmlStr decoded] u a
  show "\<exists>d. ParseXMLData unmarshal xmlStr = Inr d \<and> Items d X = Some v2"
    by auto
next
  let ?doc = "''<RD5WEB><RD5><INTEGER_R><O I=\"X\" V=\"1\"/></INTEGER_R><ENUM_R><O I=\"X\" V=\"2\"/></ENUM_R></RD5></RD5WEB>''"
  have u: "xml_Unmarshal ?doc =
      Inr \<lparr>IntegerR = [\<lparr>ID = ''X'', Value = ''1''\<rparr>], StringR = [], FloatR = [],
           EnumR = [\<lparr>ID = ''X'', Value = ''2''\<rparr>]\<rparr>"
    by (simp add: xml_eval)
  show "\<exists>d. ParseXMLData xml_Unmarshal ?doc = Inr d \<and> Items d ''X'' = Some ''2''"
    unfolding ParseXMLData_def u by simp
qed

text \<open>
  An identifier in the integer, the floating and the enumerated section takes the value
  of the enumerated section.
\<close>

theorem ParseXMLData_precedence_witness:
  "\<exists>d. ParseXMLData xml_Unmarshal
     ''<RD5WEB><RD5><INTEGER_R><O I=\"I10215\" V=\"1\"/></INTEGER_R><FLOAT_R><O I=\"I10215\" V=\"3\"/></FLOAT_R><ENUM_R><O I=\"I10215\" V=\"2\"/></ENUM_R></RD5></RD5WEB>''
       = Inr d \<and> Items d ''I10215'' = Some ''2''"
proof -
  let ?doc = "''<RD5WEB><RD5><INTEGER_R><O I=\"I10215\" V=\"1\"/></INTEGER_R><FLOAT_R><O I=\"I10215\" V=\"3\"/></FLOAT_R><ENUM_R><O I=\"I10215\" V=\"2\"/></ENUM_R></RD5></RD5WEB>''"
  let ?decoded = "\<lparr>IntegerR = [\<lparr>ID = ''I10215'', Value = ''1''\<rparr>], StringR = [],
           FloatR = [\<lparr>ID = ''I10215'', Value = ''3''\<rparr>],
           EnumR = [\<lparr>ID = ''I10215'', Value = ''2''\<rparr>]\<rparr>"
  have u: "xml_Unmarshal ?doc = Inr ?decoded"
    by (simp add: xml_eval)
  have i: "section_value (IntegerR ?decoded) ''I10215'' = Some ''1''"
    by (simp add: section_value_def)
  have e: "section_value (EnumR ?decoded) ''I10215'' = Some ''2''"
    by (simp add: section_value_def)
  from ParseXMLData_precedence have
    "\<forall>unmarshal xmlStr decoded X v1 v2.
        unmarshal xmlStr = Inr decoded \<and> section_value (IntegerR decoded) X = Some v1
          \<and> section_value (EnumR decoded) X = Some v2 \<longrightarrow>
        (\<exists>d. ParseXMLData unmarshal xmlStr = Inr d \<and> Items d X = Some v2)"
    by blast
  from this [rule_format, of xml_Unmarshal ?doc ?decoded "''I10215''" "''1''" "''2''"] u i e
  show ?thesis by blast
qed

section \<open>Value codec: IPv4 addresses\<close>

text \<open>
  C5. For four octets in the range 0 to 255: on their dotted-quad spelling in decimal
  without sign or leading zeros, the encoder produces low = octet1 + octet2 * 256 and
  high = octet3 + octet4 * 256, and decoding that pair returns the original string. On
  every string whose four parts between the dots \<open>strconv.Atoi\<close> reads as these
  octets, the encoder produces the same pair and decoding it returns that spelling
  without sign or leading zeros: the original string is returned exactly when it is
  spelled that way.
\<close>

theorem IP_round_trip:
  assumes "0 \<le> a" "a \<le> 255" "0 \<le> b" "b \<le> 255" "0 \<le> c" "c \<le> 255" "0 \<le> d" "d \<le> 255"
  shows "IPParameterEncoder (dotted_quad a b c d) =
           (Some [''low'' \<mapsto> Itoa (a + b * 256), ''high'' \<mapsto> Itoa (c + d * 256)], None)
         \<and> IPRoundTrip (dotted_quad a b c d) = Some (dotted_quad a b c d)
         \<and> (\<forall>ip. map Atoi (Split ip CHR ''.'') = [(a, None), (b, None), (c, None), (d, None)] \<longrightarrow>
               IPParameterEncoder ip =
                 (Some [''low'' \<mapsto> Itoa (a + b * 256), ''high'' \<mapsto> Itoa (c + d * 256)], None)
             \<and> IPRoundTrip ip = Some (dotted_quad a b c d)
             \<and> (IPRoundTrip ip = Some ip \<longleftrightarrow> ip = dotted_quad a b c d))"
proof -
  have lo: "Atoi (Itoa (a + b * 256)) = (a + b * 256, None)"
    using assms by (intro Atoi_Itoa) simp_all
  have hi: "Atoi (Itoa (c + d * 256)) = (c + d * 256, None)"
    using assms by (intro Atoi_Itoa) simp_all
  have dec: "IPParameterDecoder (a + b * 256) (c + d * 256) = dotted_quad a b c d"
    using assms by (simp add: IPParameterDecoder_def dotted_quad_def octet_bits)
  have gen: "IPParameterEncoder ip =
                 (Some [''low'' \<mapsto> Itoa (a + b * 256), ''high'' \<mapsto> Itoa (c + d * 256)], None)
             \<and> IPRoundTrip ip = Some (dotted_quad a b c d)
             \<and> (IPRoundTrip ip = Some ip \<longleftrightarrow> ip = dotted_quad a b c d)"
    if h: "map Atoi (Split ip CHR ''.'') = [(a, None), (b, None), (c, None), (d, None)]" for ip
  proof -
    from h have "length (map Atoi (Split ip CHR ''.'')) = 4" by simp
    then have len: "length (Split ip CHR ''.'') = 4" by simp
    have "map (\<lambda>p. fst (Atoi p)) (Split ip CHR ''.'') = map fst (map Atoi (Split ip CHR ''.''))"
      by simp
    then have oct: "map (\<lambda>p. fst (Atoi p)) (Split ip CHR ''.'') = [a, b, c, d]"
      unfolding h by simp
    have enc: "IPParameterEncoder ip =
        (Some [''low'' \<mapsto> Itoa (a + b * 256), ''high'' \<mapsto> Itoa (c + d * 256)], None)"
      unfolding IPParameterEncoder_def Let_def oct
      using len assms by (simp add: pack_octets)
    have rt: "IPRoundTrip ip = Some (dotted_quad a b c d)"
      by (simp add: IPRoundTrip_def enc lo hi dec)
    from enc rt show ?thesis by auto
  qed
  have "map Atoi (Split (dotted_quad a b c d) CHR ''.'') = [(a, None), (b, None), (c, None), (d, None)]"
  proof -
    have at: "Atoi (Itoa x) = (x, None)" if "0 \<le> x" "x \<le> 255" for x
      using that by (intro Atoi_Itoa) simp_all
    show ?thesis
      using assms by (simp add: Split_dotted_quad at)
  qed
  from gen [OF this] gen show ?thesis by blast
qed

text \<open>
  The address of the example program, and the same address with a zero before the third
  octet.
\<close>

theorem IP_round_trip_witness:
  "IPParameterEncoder ''192.168.1.100'' = (Some [''low'' \<mapsto> ''43200'', ''high'' \<mapsto> ''25601''], None)
   \<and> IPRoundTrip ''192.168.1.100'' = Some ''192.168.1.100''
   \<and> map Atoi (Split ''192.168.001.100'' CHR ''.'') = [(192, None), (168, None), (1, None), (100, None)]
   \<and> IPRoundTrip ''192.168.001.100'' = Some ''192.168.1.100''"
proof -
  have dq: "dotted_quad 192 168 1 100 = ''192.168.1.100''"
    by (simp add: dotted_quad_def Itoa_def digit_char_def digits10.simps)
  have lo: "Itoa (192 + 168 * 256) = ''43200''" by (simp add: Itoa_def digit_char_def digits10.simps)
  have hi: "Itoa (1 + 100 * 256) = ''25601''" by (simp add: Itoa_def digit_char_def digits10.simps)
  have sp: "map Atoi (Split ''192.168.001.100'' CHR ''.'') = [(192, None), (168, None), (1, None), (100, None)]"
    by (simp add: str_eval)
  note t = IP_round_trip [of 192 168 1 100, unfolded dq lo hi]
  from t have canonical:
    "IPParameterEncoder ''192.168.1.100'' = (Some [''low'' \<mapsto> ''43200'', ''high'' \<mapsto> ''25601''], None)
     \<and> IPRoundTrip ''192.168.1.100'' = Some ''192.168.1.100''"
    by simp
  from t have all: "\<forall>ip. map Atoi (Split ip CHR ''.'') = [(192, None), (168, None), (1, None), (100, None)] \<longrightarrow>
      IPRoundTrip ip = Some ''192.168.1.100''"
    by simp
  have padded: "IPRoundTrip ''192.168.001.100'' = Some ''192.168.1.100''"
    by (rule all [rule_format, OF sp])
  from canonical sp padded show ?thesis by simp
qed

text \<open>
  A dotted-quad string with octets in the range is not always returned as it was
  written: a leading zero of an octet is lost on the way.
\<close>

theorem IP_round_trip_changes_spelling:
  "map Atoi (Split ''192.168.068.106'' CHR ''.'') = [(192, None), (168, None), (68, None), (106, None)]
   \<and> IPRoundTrip ''192.168.068.106'' = Some ''192.168.68.106''
   \<and> IPRoundTrip ''192.168.068.106'' \<noteq> Some ''192.168.068.106''
   \<and> map Atoi (Split ''01.2.3.4'' CHR ''.'') = [(1, None), (2, None), (3, None), (4, None)]
   \<and> IPRoundTrip ''01.2.3.4'' = Some ''1.2.3.4''"
proof -
  have s1: "map Atoi (Split ''192.168.068.106'' CHR ''.'') = [(192, None), (168, None), (68, None), (106, None)]"
    by (simp add: str_eval)
  have s2: "map Atoi (Split ''01.2.3.4'' CHR ''.'') = [(1, None), (2, None), (3, None), (4, None)]"
    by (simp add: str_eval)
  have e1: "IPParameterEncoder ''192.168.068.106'' = (Some [''low'' \<mapsto> ''43200'', ''high'' \<mapsto> ''27204''], None)"
    using s1
    by (simp add: IPParameterEncoder_def Let_def int_add_def int_shl_def wrap64_def Itoa_def
        digit_char_def digits10.simps)
  have e2: "IPParameterEncoder ''01.2.3.4'' = (Some [''low'' \<mapsto> ''513'', ''high'' \<mapsto> ''1027''], None)"
    using s2
    by (simp add: IPParameterEncoder_def Let_def int_add_def int_shl_def wrap64_def Itoa_def
        digit_char_def digits10.simps)
  have a: "Atoi ''43200'' = (43200, None)" "Atoi ''27204'' = (27204, None)"
    "Atoi ''513'' = (513, None)" "Atoi ''1027'' = (1027, None)"
    by (simp_all add: str_eval)
  have m: "x AND 255 = x mod 256" for x :: int
    using take_bit_eq_mask [of 8 x] by (simp add: take_bit_eq_mod mask_eq_exp_minus_1)
  have d1: "IPParameterDecoder 43200 27204 = ''192.168.68.106''"
    by (simp add: IPParameterDecoder_def m drop_bit_eq_div Itoa_def digit_char_def digits10.simps)
  have d2: "IPParameterDecoder 513 1027 = ''1.2.3.4''"
    by (simp add: IPParameterDecoder_def m drop_bit_eq_div Itoa_def digit_char_def digits10.simps)
  have r1: "IPRoundTrip ''192.168.068.106'' = Some ''192.168.68.106''"
    by (simp add: IPRoundTrip_def e1 a d1)
  have r2: "IPRoundTrip ''01.2.3.4'' = Some ''1.2.3.4''"
    by (simp add: IPRoundTrip_def e2 a d2)
  from s1 s2 r1 r2 show ?thesis by simp
qed

section \<open>Parameter catalog\<close>

text \<open>
  C6. For every snapshot, \<open>GetCurrentTemperature\<close> tries the ordered candidate
  identifiers I10215, I10222, I10224, I10225, I10249 and returns the decoded reading of
  the first candidate that is present in the snapshot with a value that parses as a
  floating-point number; it returns 0.0 when there is no such candidate, in particular
  when no candidate is present. For the snapshot parsed from the sample document
  \<open><RD5WEB><RD5><INTEGER_R><O I="I10215" V="201"/></INTEGER_R></RD5></RD5WEB>\<close>, the
  snapshot maps I10215 to 201 and the current temperature is 20.1. A value that parses
  to an infinity, or to a number beyond the range of \<open>int\<close>, is such a reading too: the
  walk stops there, and on amd64 its decoded reading is 0.0.
\<close>

theorem GetCurrentTemperature_first_readable:
  "(\<forall>unrepresentable parseFloat d. GetCurrentTemperature unrepresentable parseFloat d =
      (case find (readable parseFloat d) current_tempIDs of
         Some k \<Rightarrow> (decodeTemperature unrepresentable (the (parseFloat (the (Items d k)))), None)
       | None \<Rightarrow> (0, None)))
   \<and> (\<forall>unrepresentable parseFloat d. (\<forall>k \<in> set current_tempIDs. Items d k = None) \<longrightarrow>
         GetCurrentTemperature unrepresentable parseFloat d = (0, None))
   \<and> (\<forall>unrepresentable. \<exists>d. ParseXMLData xml_Unmarshal
          ''<RD5WEB><RD5><INTEGER_R><O I=\"I10215\" V=\"201\"/></INTEGER_R></RD5></RD5WEB>'' = Inr d
        \<and> Items d ''I10215'' = Some ''201''
        \<and> GetCurrentTemperature unrepresentable ParseFloat d = (201 / 10, None))
   \<and> GetCurrentTemperature unrepresentable_amd64 ParseFloat snapshot_infinite_first = (0, None)
   \<and> GetCurrentTemperature unrepresentable_amd64 ParseFloat snapshot_huge_first = (0, None)"
proof (intro conjI allI impI)
  fix unrepresentable :: "float64 \<Rightarrow> 64 word"
    and parseFloat :: "string \<Rightarrow> float64 option" and d :: DeviceData
  show "GetCurrentTemperature unrepresentable parseFloat d =
      (case find (readable parseFloat d) current_tempIDs of
         Some k \<Rightarrow> (decodeTemperature unrepresentable (the (parseFloat (the (Items d k)))), None)
       | None \<Rightarrow> (0, None))"
    by (simp add: GetCurrentTemperature_def temperature_of_first_find split: option.splits)
next
  fix unrepresentable :: "float64 \<Rightarrow> 64 word"
    and parseFloat :: "string \<Rightarrow> float64 option" and d :: DeviceData
  assume "\<forall>k \<in> set current_tempIDs. Items d k = None"
  then have "find (readable parseFloat d) current_tempIDs = None"
    by (simp add: find_None_iff readable_def)
  then show "GetCurrentTemperature unrepresentable parseFloat d = (0, None)"
    by (simp add: GetCurrentTemperature_def temperature_of_first_find)
next
  fix unrepresentable :: "float64 \<Rightarrow> 64 word"
  let ?doc = "''<RD5WEB><RD5><INTEGER_R><O I=\"I10215\" V=\"201\"/></INTEGER_R></RD5></RD5WEB>''"
  have u: "xml_Unmarshal ?doc =
      Inr \<lparr>IntegerR = [\<lparr>ID = ''I10215'', Value = ''201''\<rparr>], StringR = [], FloatR = [], EnumR = []\<rparr>"
    by (simp add: xml_eval)
  have p: "ParseFloat ''201'' = Some (Finite 201)"
    by (simp add: float_eval)
  have dt: "decodeTemperature unrepresentable (Finite 201) = 201 / 10"
    using float_to_int_of_int [of 201 unrepresentable] by (simp add: decodeTemperature_def)
  show "\<exists>d. ParseXMLData xml_Unmarshal ?doc = Inr d
        \<and> Items d ''I10215'' = Some ''201''
        \<and> GetCurrentTemperature unrepresentable ParseFloat d = (201 / 10, None)"
    unfolding ParseXMLData_def u
    by (simp add: GetCurrentTemperature_def current_tempIDs_def p dt)
next
  have p: "ParseFloat ''Inf'' = Some PosInf"
    by (simp add: float_eval)
  have dt: "decodeTemperature unrepresentable_amd64 PosInf = 0"
    by (rule decodeTemperature_amd64_unrepresentable) simp
  show "GetCurrentTemperature unrepresentable_amd64 ParseFloat snapshot_infinite_first = (0, None)"
    by (simp add: GetCurrentTemperature_def current_tempIDs_def snapshot_infinite_first_def p dt)
next
  have p: "ParseFloat ''10000000000000000000000'' = Some (Finite 10000000000000000000000)"
    by (simp add: float_eval)
  have dt: "decodeTemperature unrepresentable_amd64 (Finite 10000000000000000000000) = 0"
    by (rule decodeTemperature_amd64_unrepresentable) simp
  show "GetCurrentTemperature unrepresentable_amd64 ParseFloat snapshot_huge_first = (0, None)"
    by (simp add: GetCurrentTemperature_def current_tempIDs_def snapshot_huge_first_def p dt)
qed

text \<open>
  A snapshot without any candidate reads 0.0.
\<close>

theorem GetCurrentTemperature_first_readable_witness:
  "GetCurrentTemperature unrepresentable_amd64 ParseFloat \<lparr>Items = [''H10715'' \<mapsto> ''1'']\<rparr>
     = (0, None)"
proof -
  have "\<forall>k \<in> set current_tempIDs. Items \<lparr>Items = [''H10715'' \<mapsto> ''1'']\<rparr> k = None"
    by (simp add: current_tempIDs_def)
  moreover from GetCurrentTemperature_first_readable have
    "\<forall>unrepresentable parseFloat d. (\<forall>k \<in> set current_tempIDs. Items d k = None) \<longrightarrow>
         GetCurrentTemperature unrepresentable parseFloat d = (0, None)"
    by blast
  ultimately show ?thesis by blast
qed

text \<open>
  The first candidate present need not be the one that is read: when its value does not
  parse, the reading of a later candidate is returned.
\<close>

theorem GetCurrentTemperature_skips_unparsable:
  "hd current_tempIDs = ''I10215''
   \<and> Items snapshot_unparsable_first ''I10215'' = Some ''abc''
   \<and> ParseFloat ''abc'' = None
   \<and> Items snapshot_unparsable_first ''I10222'' = Some ''201''
   \<and> GetCurrentTemperature unrepresentable_amd64 ParseFloat snapshot_unparsable_first
       = (201 / 10, None)"
proof -
  have p: "ParseFloat ''201'' = Some (Finite 201)"
    by (simp add: float_eval)
  have q: "ParseFloat ''abc'' = None"
    by (simp add: float_eval)
  have dt: "decodeTemperature unrepresentable_amd64 (Finite 201) = 201 / 10"
    using float_to_int_of_int [of 201 unrepresentable_amd64] by (simp add: decodeTemperature_def)
  show ?thesis
    by (simp add: GetCurrentTemperature_def current_tempIDs_def snapshot_unparsable_first_def p q dt)
qed

section \<open>Session client: writing parameters\<close>

text \<open>
  C7. For every single set-parameter request (on a parameter that contains \<open>=\<close>) and
  every batched one that the device answers, the operation succeeds exactly when the
  HTTP status is 200, and fails with the error carrying the status for every other
  status.
\<close>

theorem Set_succeeds_iff_status_200:
  "(CHR ''='' \<in> set parameter \<and> dev (SetValue_URL wc parameter) = Inr resp \<longrightarrow>
      SetValue dev wc parameter =
        Return (if StatusCode resp = 200 then None else Some (SetValueFailed (StatusCode resp))))
   \<and> (dev (SetMultipleValues_URL wc parameters) = Inr resp \<longrightarrow>
      SetMultipleValues dev wc parameters =
        (if StatusCode resp = 200 then None else Some (SetValuesFailed (StatusCode resp))))"
proof -
  have "\<not> length (Split parameter CHR ''='') < 2" if "CHR ''='' \<in> set parameter"
    using that by (simp add: length_Split_lt_2)
  then show ?thesis
    by (auto simp: SetValue_def SetMultipleValues_def)
qed

text \<open>
  A device answering 200 accepts a single write; one answering 500 rejects a batch.
\<close>

theorem Set_succeeds_iff_status_200_witness:
  "SetValue (device_answering 200) \<lparr>baseURL = ''http://192.168.68.106'', auth = ''12345''\<rparr> ''H11021=21'' = Return None
   \<and> SetMultipleValues (device_answering 500) \<lparr>baseURL = ''http://192.168.68.106'', auth = ''12345''\<rparr> [''H11021=22'', ''H11017=1'']
        = Some (SetValuesFailed 500)"
proof -
  let ?wc = "\<lparr>baseURL = ''http://192.168.68.106'', auth = ''12345''\<rparr>"
  have a: "CHR ''='' \<in> set ''H11021=21''" by simp
  have b: "device_answering 200 (SetValue_URL ?wc ''H11021=21'') = Inr \<lparr>StatusCode = 200, Body = []\<rparr>"
    by (simp add: device_answering_def)
  have c: "device_answering 500 (SetMultipleValues_URL ?wc [''H11021=22'', ''H11017=1'']) = Inr \<lparr>StatusCode = 500, Body = []\<rparr>"
    by (simp add: device_answering_def)
  from Set_succeeds_iff_status_200 [of "''H11021=21''" "device_answering 200" ?wc "\<lparr>StatusCode = 200, Body = []\<rparr>" "[]"] a b
  have 1: "SetValue (device_answering 200) ?wc ''H11021=21'' = Return None" by simp
  from Set_succeeds_iff_status_200 [of "[]" "device_answering 500" ?wc "\<lparr>StatusCode = 500, Body = []\<rparr>" "[''H11021=22'', ''H11017=1'']"] c
  have 2: "SetMultipleValues (device_answering 500) ?wc [''H11021=22'', ''H11017=1''] = Some (SetValuesFailed 500)" by simp
  from 1 2 show ?thesis by simp
qed

text \<open>
  The status 204 is a 2xx status, and both operations fail on it.
\<close>

theorem Set_rejects_status_204:
  "SetValue (device_answering 204) \<lparr>baseURL = ''http://192.168.68.106'', auth = ''12345''\<rparr> ''H11021=21''
     = Return (Some (SetValueFailed 204))
   \<and> SetMultipleValues (device_answering 204) \<lparr>baseURL = ''http://192.168.68.106'', auth = ''12345''\<rparr> [''H11021=22'', ''H11017=1'']
     = Some (SetValuesFailed 204)
   \<and> (200::nat) \<le> 204 \<and> (204::nat) < 300"
  by (simp add: SetValue_def SetMultipleValues_def device_answering_def Let_def)

text \<open>
  C8. \<open>SetValue\<close> panics exactly on the parameter strings without an \<open>=\<close>: splitting
  such a string at \<open>=\<close> yields the single element that is the string itself, and index 1
  is out of range; it returns no error result then.
\<close>

theorem SetValue_panics_without_equals:
  "(SetValue dev wc parameter = Panic \<longleftrightarrow> CHR ''='' \<notin> set parameter)
   \<and> (CHR ''='' \<notin> set parameter \<longrightarrow> Split parameter CHR ''='' = [parameter])"
proof -
  have "SetValue dev wc parameter = Panic \<longleftrightarrow> length (Split parameter CHR ''='') < 2"
    by (auto simp: SetValue_def split: sum.splits)
  then show ?thesis
    by (simp add: length_Split_lt_2 Split_no_sep)
qed

text \<open>
  The identifier alone makes the call panic; with a value the call returns.
\<close>

theorem SetValue_panics_without_equals_witness:
  "CHR ''='' \<notin> set ''H11021'' \<and> Split ''H11021'' CHR ''='' = [''H11021'']
   \<and> SetValue (device_answering 200) \<lparr>baseURL = ''http://192.168.68.106'', auth = ''12345''\<rparr> ''H11021'' = Panic
   \<and> SetValue (device_answering 200) \<lparr>baseURL = ''http://192.168.68.106'', auth = ''12345''\<rparr> ''H11021=21'' = Return None"
proof -
  have a: "CHR ''='' \<notin> set ''H11021''" by simp
  have b: "CHR ''='' \<in> set ''H11021=21''" by simp
  have "SetValue (device_answering 200) \<lparr>baseURL = ''http://192.168.68.106'', auth = ''12345''\<rparr> ''H11021=21'' = Return None"
    by (simp add: SetValue_def device_answering_def Let_def)
  then show ?thesis
    using SetValue_panics_without_equals [of "device_answering 200" "\<lparr>baseURL = ''http://192.168.68.106'', auth = ''12345''\<rparr>" "''H11021''"] a
    by simp
qed

section \<open>Value codec: leniency of the IPv4 encoder\<close>

text \<open>
  C9. The IPv4 encoder never signals a failure: its error is nil for every input. For
  an input that does not split into exactly four dot-separated parts the result is
  absent. Within a four-part input every octet is encoded as the value
  \<open>strconv.Atoi\<close> returns for it, its error being discarded: 0 for an octet with a syntax
  error (an empty one, or one that starts with a character other than a sign or a
  digit, among others), and the bound of the 64-bit range for an octet whose digits
  overflow it.
\<close>

theorem IPParameterEncoder_never_fails:
  "snd (IPParameterEncoder ip) = None
   \<and> (length (Split ip CHR ''.'') \<noteq> 4 \<longrightarrow> IPParameterEncoder ip = (None, None))
   \<and> (Split ip CHR ''.'' = [p0, p1, p2, p3] \<longrightarrow>
        IPParameterEncoder ip =
          (Some [''low'' \<mapsto> Itoa (int_add (fst (Atoi p0)) (int_shl (fst (Atoi p1)) 8)),
                 ''high'' \<mapsto> Itoa (int_add (fst (Atoi p2)) (int_shl (fst (Atoi p3)) 8))], None))
   \<and> (snd (Atoi p) = Some ErrSyntax \<longrightarrow> fst (Atoi p) = 0)
   \<and> (snd (Atoi p) = Some ErrRange \<longrightarrow>
        fst (Atoi p) = (if hd p = CHR ''-'' then - (2 ^ 63) else 2 ^ 63 - 1))
   \<and> (p = [] \<or> (hd p \<noteq> CHR ''+'' \<and> hd p \<noteq> CHR ''-'' \<and> \<not> is_digit (hd p)) \<longrightarrow>
        Atoi p = (0, Some ErrSyntax))"
proof -
  have a: "snd (IPParameterEncoder ip) = None"
    by (simp add: IPParameterEncoder_def Let_def)
  have b: "length (Split ip CHR ''.'') \<noteq> 4 \<longrightarrow> IPParameterEncoder ip = (None, None)"
    by (simp add: IPParameterEncoder_def Let_def)
  have c: "Split ip CHR ''.'' = [p0, p1, p2, p3] \<longrightarrow>
        IPParameterEncoder ip =
          (Some [''low'' \<mapsto> Itoa (int_add (fst (Atoi p0)) (int_shl (fst (Atoi p1)) 8)),
                 ''high'' \<mapsto> Itoa (int_add (fst (Atoi p2)) (int_shl (fst (Atoi p3)) 8))], None)"
    by (simp add: IPParameterEncoder_def Let_def)
  have d: "snd (Atoi p) = Some ErrSyntax \<longrightarrow> fst (Atoi p) = 0"
    using Atoi_ErrSyntax_zero by blast
  have e: "snd (Atoi p) = Some ErrRange \<longrightarrow>
        fst (Atoi p) = (if hd p = CHR ''-'' then - (2 ^ 63) else 2 ^ 63 - 1)"
    using Atoi_ErrRange_saturates by blast
  have f: "p = [] \<or> (hd p \<noteq> CHR ''+'' \<and> hd p \<noteq> CHR ''-'' \<and> \<not> is_digit (hd p)) \<longrightarrow>
        Atoi p = (0, Some ErrSyntax)"
  proof (cases p)
    case Nil
    then show ?thesis by (simp add: Atoi_def ParseInt_def)
  next
    case (Cons c cs)
    then show ?thesis by (simp add: Atoi_def ParseInt_def ParseUint_def)
  qed
  from a b c d e f show ?thesis by blast
qed

text \<open>
  An address of three parts yields no result and no error; an octet that is not a number
  is encoded as 0.
\<close>

theorem IPParameterEncoder_never_fails_witness:
  "IPParameterEncoder ''1.2.3'' = (None, None)
   \<and> Atoi ''x'' = (0, Some ErrSyntax)
   \<and> IPParameterEncoder ''1.x.3.4'' = (Some [''low'' \<mapsto> ''1'', ''high'' \<mapsto> ''1027''], None)"
proof -
  have s3: "length (Split ''1.2.3'' CHR ''.'') \<noteq> 4" by simp
  have s4: "Split ''1.x.3.4'' CHR ''.'' = [''1'', ''x'', ''3'', ''4'']" by simp
  have x: "''x'' = [] \<or> (hd ''x'' \<noteq> CHR ''+'' \<and> hd ''x'' \<noteq> CHR ''-'' \<and> \<not> is_digit (hd ''x''))"
    by (simp add: is_digit_def less_eq_char_def)
  have v: "Atoi ''1'' = (1, None)" "Atoi ''3'' = (3, None)" "Atoi ''4'' = (4, None)"
    by (simp_all add: str_eval)
  have lo: "Itoa (int_add 1 (int_shl 0 8)) = ''1''"
    by (simp add: int_add_def int_shl_def wrap64_def Itoa_def digit_char_def digits10.simps)
  have hi: "Itoa (int_add 3 (int_shl 4 8)) = ''1027''"
    by (simp add: int_add_def int_shl_def wrap64_def Itoa_def digit_char_def digits10.simps)
  from IPParameterEncoder_never_fails [of "''1.2.3''" "[]" "[]" "[]" "[]" "''x''"] s3 x
  have 1: "IPParameterEncoder ''1.2.3'' = (None, None)" and 2: "Atoi ''x'' = (0, Some ErrSyntax)"
    by blast+
  from IPParameterEncoder_never_fails [of "''1.x.3.4''" "''1''" "''x''" "''3''" "''4''" "''x''"] s4
  have "IPParameterEncoder ''1.x.3.4'' =
          (Some [''low'' \<mapsto> Itoa (int_add (fst (Atoi ''1'')) (int_shl (fst (Atoi ''x'')) 8)),
                 ''high'' \<mapsto> Itoa (int_add (fst (Atoi ''3'')) (int_shl (fst (Atoi ''4'')) 8))], None)"
    by blast
  then have 3: "IPParameterEncoder ''1.x.3.4'' = (Some [''low'' \<mapsto> ''1'', ''high'' \<mapsto> ''1027''], None)"
    unfolding v 2 by (simp add: lo hi)
  from 1 2 3 show ?thesis by simp
qed

text \<open>
  An octet of twenty nines fails integer parsing with a range error and is encoded as
  the largest 64-bit integer, not as 0.
\<close>

theorem IPParameterEncoder_saturates_overflowing_octet:
  "Split ''99999999999999999999.0.0.0'' CHR ''.'' = [''99999999999999999999'', ''0'', ''0'', ''0'']
   \<and> Atoi ''99999999999999999999'' = (9223372036854775807, Some ErrRange)
   \<and> IPParameterEncoder ''99999999999999999999.0.0.0'' =
       (Some [''low'' \<mapsto> ''9223372036854775807'', ''high'' \<mapsto> ''0''], None)"
proof -
  have s: "Split ''99999999999999999999.0.0.0'' CHR ''.'' = [''99999999999999999999'', ''0'', ''0'', ''0'']"
    by simp
  have a: "Atoi ''99999999999999999999'' = (9223372036854775807, Some ErrRange)"
    by (simp add: str_eval)
  have z: "Atoi ''0'' = (0, None)"
    by (simp add: str_eval)
  have lo: "Itoa (int_add 9223372036854775807 (int_shl 0 8)) = ''9223372036854775807''"
    by (simp add: int_add_def int_shl_def wrap64_def Itoa_def digit_char_def digits10.simps)
  have hi: "Itoa (int_add 0 (int_shl 0 8)) = ''0''"
    by (simp add: int_add_def int_shl_def wrap64_def Itoa_def digit_char_def digits10.simps)
  have "IPParameterEncoder ''99999999999999999999.0.0.0'' =
       (Some [''low'' \<mapsto> ''9223372036854775807'', ''high'' \<mapsto> ''0''], None)"
    unfolding IPParameterEncoder_def s Let_def by (simp add: a z lo hi)
  with s a show ?thesis by simp
qed

section \<open>Session client: batched writes\<close>



end
